theory Spec2Isabelle
  imports Main "HOL-Library.List_Lexorder" "HOL-Library.Product_Lexorder"
begin

section \<open>Python strings\<close>

text \<open>
  A Python \<open>str\<close> is a sequence of Unicode code points; it is modelled as a list of
  naturals. With \<open>List_Lexorder\<close> the order on such lists is the lexicographic order on
  code points that Python uses to compare strings, and \<open>Product_Lexorder\<close> gives the
  order Python uses to compare tuples.
\<close>

type_synonym pystr = "nat list"

definition str :: "string \<Rightarrow> pystr" where
  "str s = map of_char s"

text \<open>\<open>str.isspace\<close> on one code point; \<open>str.strip\<close> and the pattern \<open>\s\<close> use the same set.\<close>

definition isspace :: "nat \<Rightarrow> bool" where
  "isspace c \<longleftrightarrow>
     (0x09 \<le> c \<and> c \<le> 0x0D) \<or> (0x1C \<le> c \<and> c \<le> 0x20) \<or> c = 0x85 \<or> c = 0xA0 \<or>
     c = 0x1680 \<or> (0x2000 \<le> c \<and> c \<le> 0x200A) \<or> c = 0x2028 \<or> c = 0x2029 \<or>
     c = 0x202F \<or> c = 0x205F \<or> c = 0x3000"

definition lstrip :: "pystr \<Rightarrow> pystr" where
  "lstrip s = dropWhile isspace s"

definition rstrip :: "pystr \<Rightarrow> pystr" where
  "rstrip s = rev (dropWhile isspace (rev s))"

definition strip :: "pystr \<Rightarrow> pystr" where
  "strip s = rstrip (lstrip s)"

text \<open>The line boundaries of \<open>str.splitlines\<close>; \<open>\r\n\<close> counts as one boundary.\<close>

definition is_linebreak :: "nat \<Rightarrow> bool" where
  "is_linebreak c \<longleftrightarrow>
     (0x0A \<le> c \<and> c \<le> 0x0D) \<or> (0x1C \<le> c \<and> c \<le> 0x1E) \<or> c = 0x85 \<or> c = 0x2028 \<or> c = 0x2029"

fun splitlines_from :: "pystr \<Rightarrow> pystr \<Rightarrow> pystr list" where
  "splitlines_from cur [] = (if cur = [] then [] else [cur])"
| "splitlines_from cur [c] = (if is_linebreak c then [cur] else [cur @ [c]])"
| "splitlines_from cur (c # d # cs) =
     (if c = 0x0D \<and> d = 0x0A then cur # splitlines_from [] cs
      else if is_linebreak c then cur # splitlines_from [] (d # cs)
      else splitlines_from (cur @ [c]) (d # cs))"

definition splitlines :: "pystr \<Rightarrow> pystr list" where
  "splitlines s = splitlines_from [] s"

fun join :: "pystr \<Rightarrow> pystr list \<Rightarrow> pystr" where
  "join sep [] = []"
| "join sep [x] = x"
| "join sep (x # y # ys) = x @ sep @ join sep (y # ys)"

definition startswith :: "pystr \<Rightarrow> pystr \<Rightarrow> bool" where
  "startswith s p \<longleftrightarrow> take (length p) s = p"

text \<open>\<open>sub in s\<close> on strings.\<close>

fun contains :: "pystr \<Rightarrow> pystr \<Rightarrow> bool" where
  "contains [] sub = (sub = [])"
| "contains (c # cs) sub = (startswith (c # cs) sub \<or> contains cs sub)"

text \<open>
  \<open>s.replace(old, new)\<close>: the occurrences of \<open>old\<close> are replaced from left to right
  without overlap; an empty \<open>old\<close> matches before every code point and at the end.
\<close>

function replace :: "pystr \<Rightarrow> pystr \<Rightarrow> pystr \<Rightarrow> pystr" where
  "replace s old new =
     (if old = [] then new @ concat (map (\<lambda>c. c # new) s)
      else if s = [] then []
      else if startswith s old then new @ replace (drop (length old) s) old new
      else hd s # replace (tl s) old new)"
  by pat_completeness auto
termination
  by (relation "measure (\<lambda>(s, old, new). length s)") (auto simp: startswith_def)

declare replace.simps [simp del]

text \<open>
  \<open>s.split(sep)\<close> for a non-empty separator: the pieces between the occurrences of
  \<open>sep\<close>, found from left to right without overlap. The result is never empty.
\<close>

function split_sep_from :: "pystr \<Rightarrow> pystr \<Rightarrow> pystr \<Rightarrow> pystr list" where
  "split_sep_from cur s sep =
     (if s = [] then [cur]
      else if sep \<noteq> [] \<and> startswith s sep then cur # split_sep_from [] (drop (length sep) s) sep
      else split_sep_from (cur @ [hd s]) (tl s) sep)"
  by pat_completeness auto
termination
  by (relation "measure (\<lambda>(cur, s, sep). length s)") (auto simp: startswith_def)

declare split_sep_from.simps [simp del]

definition split_sep :: "pystr \<Rightarrow> pystr \<Rightarrow> pystr list" where
  "split_sep s sep = split_sep_from [] s sep"

text \<open>
  \<open>s.split(None, 1)\<close>: leading whitespace is skipped; the first piece runs to the next
  whitespace; the second piece, if any code point other than whitespace follows, is the
  rest of the string from there.
\<close>

definition split_ws1 :: "pystr \<Rightarrow> pystr list" where
  "split_ws1 s =
     (let s1 = dropWhile isspace s in
      if s1 = [] then []
      else
        let first = takeWhile (\<lambda>c. \<not> isspace c) s1;
            rest = dropWhile isspace (dropWhile (\<lambda>c. \<not> isspace c) s1)
        in if rest = [] then [first] else [first, rest])"

section \<open>Regular expressions\<close>

text \<open>
  The fragment of \<open>re\<close> that the program uses: one code point from a class, sequence,
  alternation, an optional part, and a greedy repetition of a class. \<open>rx_ends r s\<close> lists
  what is left of \<open>s\<close> after each way \<open>r\<close> can match at its start, in the order in which
  a backtracking matcher tries them, so that the head of the list is the match that
  \<open>re\<close> reports.
\<close>

datatype rx =
    Eps
  | Chr "nat \<Rightarrow> bool"
  | Cat rx rx
  | Alt rx rx
  | Opt rx
  | Star "nat \<Rightarrow> bool"

fun rx_ends :: "rx \<Rightarrow> pystr \<Rightarrow> pystr list" where
  "rx_ends Eps s = [s]"
| "rx_ends (Chr p) [] = []"
| "rx_ends (Chr p) (c # cs) = (if p c then [cs] else [])"
| "rx_ends (Cat a b) s = concat (map (rx_ends b) (rx_ends a s))"
| "rx_ends (Alt a b) s = rx_ends a s @ rx_ends b s"
| "rx_ends (Opt a) s = rx_ends a s @ [s]"
| "rx_ends (Star p) [] = [[]]"
| "rx_ends (Star p) (c # cs) = (if p c then rx_ends (Star p) cs @ [c # cs] else [c # cs])"

definition re_fullmatch :: "rx \<Rightarrow> pystr \<Rightarrow> bool" where
  "re_fullmatch r s \<longleftrightarrow> [] \<in> set (rx_ends r s)"

text \<open>
  \<open>re.sub(r, repl, s)\<close> for a replacement without group references: scanning from the
  left, the first match at the earliest position is replaced and the scan goes on behind
  it. No pattern of the program matches the empty string; an empty match is passed over
  here.
\<close>

function re_sub :: "rx \<Rightarrow> pystr \<Rightarrow> pystr \<Rightarrow> pystr" where
  "re_sub r repl s =
     (case rx_ends r s of
        e # _ \<Rightarrow>
          if length e < length s then repl @ re_sub r repl e
          else (case s of [] \<Rightarrow> [] | c # cs \<Rightarrow> c # re_sub r repl cs)
      | [] \<Rightarrow> (case s of [] \<Rightarrow> [] | c # cs \<Rightarrow> c # re_sub r repl cs))"
  by pat_completeness auto
termination
  by (relation "measure (\<lambda>(r, repl, s). length s)") auto

declare re_sub.simps [simp del]

text \<open>Pattern pieces: a literal code point, a literal string, one or more of a class.\<close>

definition lit :: "nat \<Rightarrow> rx" where
  "lit c = Chr (\<lambda>x. x = c)"

text \<open>
  A letter of a pattern compiled with \<open>(?i)\<close> matches both of its ASCII cases; \<open>i\<close> also
  matches U+0130 and U+0131, and \<open>s\<close> also matches U+017F. Digits and punctuation match
  themselves only. The argument is the lower-case letter as the pattern has it.
\<close>

definition ci :: "nat \<Rightarrow> rx" where
  "ci c = Chr (\<lambda>x. x = c \<or> (0x61 \<le> c \<and> c \<le> 0x7A \<and> x + 0x20 = c) \<or>
                     (c = 0x69 \<and> (x = 0x130 \<or> x = 0x131)) \<or> (c = 0x73 \<and> x = 0x17F))"

fun cat_list :: "rx list \<Rightarrow> rx" where
  "cat_list [] = Eps"
| "cat_list [r] = r"
| "cat_list (r # rs) = Cat r (cat_list rs)"

definition ci_str :: "string \<Rightarrow> rx" where
  "ci_str w = cat_list (map (\<lambda>c. ci (of_char c)) w)"

definition lit_str :: "string \<Rightarrow> rx" where
  "lit_str w = cat_list (map (\<lambda>c. lit (of_char c)) w)"

fun alt_list :: "rx list \<Rightarrow> rx" where
  "alt_list [] = Chr (\<lambda>x. False)"
| "alt_list [r] = r"
| "alt_list (r # rs) = Alt r (alt_list rs)"

definition rx_plus :: "(nat \<Rightarrow> bool) \<Rightarrow> rx" where
  "rx_plus p = Cat (Chr p) (Star p)"

definition not_gt :: "nat \<Rightarrow> bool" where
  "not_gt c \<longleftrightarrow> c \<noteq> 0x3E"

section \<open>Text classifier\<close>

text \<open>The patterns of \<open>extract_text_sections\<close> and \<open>_normalize_whitespace\<close>, in source order.\<close>

definition rx_br :: rx where
  "rx_br = cat_list [lit_str ''<'', ci_str ''br'', Star isspace, Opt (lit_str ''/''), lit_str ''>'']"

definition rx_block_close :: rx where
  "rx_block_close =
     cat_list [lit_str ''</'', alt_list [ci_str ''p'', ci_str ''div'', ci_str ''h4'', ci_str ''h5''],
               lit_str ''>'']"

definition rx_block_open :: rx where
  "rx_block_open =
     cat_list [lit_str ''<'', alt_list [ci_str ''p'', ci_str ''div'', ci_str ''h4'', ci_str ''h5''],
               Star not_gt, lit_str ''>'']"

definition rx_inline :: rx where
  "rx_inline =
     cat_list [lit_str ''<'', Opt (lit_str ''/''),
               alt_list [ci_str ''span'', ci_str ''strong'', ci_str ''b'', ci_str ''i''],
               Star not_gt, lit_str ''>'']"

definition rx_tag :: rx where
  "rx_tag = cat_list [lit_str ''<'', rx_plus not_gt, lit_str ''>'']"

definition rx_spaces :: rx where
  "rx_spaces = rx_plus isspace"

text \<open>The literals of the source that are not ASCII, as code points.\<close>

definition word_vhod :: pystr where
  "word_vhod = [0x432, 0x445, 0x43E, 0x434]"

definition word_vyhod :: pystr where
  "word_vyhod = [0x432, 0x44B, 0x445, 0x43E, 0x434]"

definition word_dan :: pystr where
  "word_dan = [0x434, 0x430, 0x43D]"

definition no_input_text :: pystr where
  "no_input_text =
     [0x412, 0x445, 0x43E, 0x434, 0x43D, 0x44B, 0x435, 0x20, 0x434, 0x430, 0x43D, 0x43D, 0x44B,
      0x435, 0x20, 0x43E, 0x442, 0x441, 0x443, 0x442, 0x441, 0x442, 0x432, 0x443, 0x44E, 0x442]"

definition no_output_text :: pystr where
  "no_output_text =
     [0x412, 0x44B, 0x445, 0x43E, 0x434, 0x43D, 0x44B, 0x435, 0x20, 0x434, 0x430, 0x43D, 0x43D, 0x44B,
      0x435, 0x20, 0x43E, 0x442, 0x441, 0x443, 0x442, 0x441, 0x442, 0x432, 0x443, 0x44E, 0x442]"

text \<open>
  Lines 155 to 162: the markup is turned into plain text. \<open>html.unescape\<close> decodes the
  character references of HTML 5; its table is not part of the program, so the function
  is a parameter.
\<close>

definition markup_text :: "(pystr \<Rightarrow> pystr) \<Rightarrow> pystr \<Rightarrow> pystr" where
  "markup_text unescape html0 =
     (let html1 = replace (replace html0 [0xA0] (str '' '')) (str ''&nbsp;'') (str '' '');
          html2 = re_sub rx_br [0x0A] html1;
          html3 = re_sub rx_block_close [0x0A] html2;
          html4 = re_sub rx_block_open [] html3;
          html5 = re_sub rx_inline [] html4;
          text = unescape html5
      in re_sub rx_tag [] text)"

text \<open>Lines 164 and 165: the stripped lines that are not empty.\<close>

definition text_lines :: "pystr \<Rightarrow> pystr list" where
  "text_lines text = filter (\<lambda>line. line \<noteq> []) (map strip (splitlines text))"

datatype cursor = Legend | Input | Output

record scan_state =
  current :: cursor
  legend_lines :: "pystr list"
  input_lines :: "pystr list"
  output_lines :: "pystr list"

text \<open>
  One round of the loop of lines 171 to 191. \<open>str.lower\<close> follows the Unicode case
  tables, which are not part of the program: it is a parameter.
\<close>

definition scan_line :: "(pystr \<Rightarrow> pystr) \<Rightarrow> scan_state \<Rightarrow> pystr \<Rightarrow> scan_state" where
  "scan_line lower st line =
     (let normalized = lower line in
      if startswith normalized word_vhod \<and> contains normalized word_dan
        then st\<lparr>current := Input\<rparr>
      else if startswith normalized (str ''input'')
        then st\<lparr>current := Input\<rparr>
      else if startswith normalized word_vyhod \<and> contains normalized word_dan
        then st\<lparr>current := Output\<rparr>
      else if startswith normalized (str ''output'')
        then st\<lparr>current := Output\<rparr>
      else if current st = Legend
        then st\<lparr>legend_lines := legend_lines st @ [line]\<rparr>
      else if current st = Input
        then st\<lparr>input_lines := input_lines st @ [line]\<rparr>
      else st\<lparr>output_lines := output_lines st @ [line]\<rparr>)"

definition scan_start :: scan_state where
  "scan_start = \<lparr>current = Legend, legend_lines = [], input_lines = [], output_lines = []\<rparr>"

definition scan_lines :: "(pystr \<Rightarrow> pystr) \<Rightarrow> pystr list \<Rightarrow> scan_state" where
  "scan_lines lower lines = foldl (scan_line lower) scan_start lines"

definition extract_text_sections ::
  "(pystr \<Rightarrow> pystr) \<Rightarrow> (pystr \<Rightarrow> pystr) \<Rightarrow> pystr \<Rightarrow> pystr \<times> pystr \<times> pystr" where
  "extract_text_sections unescape lower html =
     (let lines = text_lines (markup_text unescape html);
          st = scan_lines lower lines;
          legend = (if legend_lines st \<noteq> [] then join [0x0A, 0x0A] (legend_lines st) else []);
          input_format =
            (if input_lines st \<noteq> [] then join [0x0A] (input_lines st) else no_input_text);
          output_format =
            (if output_lines st \<noteq> [] then join [0x0A] (output_lines st) else no_output_text)
      in (legend, input_format, output_format))"

definition normalize_whitespace :: "pystr \<Rightarrow> pystr" where
  "normalize_whitespace v = re_sub rx_spaces (str '' '') (strip v)"

text \<open>
  \<open>str.lower\<close> on the letters of ASCII and of the Cyrillic block, for evaluating the
  program on texts written with those letters.
\<close>

definition lower_cp :: "nat \<Rightarrow> nat" where
  "lower_cp c =
     (if 0x41 \<le> c \<and> c \<le> 0x5A then c + 0x20
      else if 0x410 \<le> c \<and> c \<le> 0x42F then c + 0x20
      else if 0x400 \<le> c \<and> c \<le> 0x40F then c + 0x50
      else c)"

definition lower_basic :: "pystr \<Rightarrow> pystr" where
  "lower_basic s = map lower_cp s"

text \<open>
  The lines at which the loop moves the cursor, in the words of the conditions of lines
  173 to 184.
\<close>

definition input_marker :: "(pystr \<Rightarrow> pystr) \<Rightarrow> pystr \<Rightarrow> bool" where
  "input_marker lower line \<longleftrightarrow>
     (startswith (lower line) word_vhod \<and> contains (lower line) word_dan) \<or>
     startswith (lower line) (str ''input'')"

definition output_marker :: "(pystr \<Rightarrow> pystr) \<Rightarrow> pystr \<Rightarrow> bool" where
  "output_marker lower line \<longleftrightarrow>
     (startswith (lower line) word_vyhod \<and> contains (lower line) word_dan) \<or>
     startswith (lower line) (str ''output'')"

definition marker :: "(pystr \<Rightarrow> pystr) \<Rightarrow> pystr \<Rightarrow> bool" where
  "marker lower line \<longleftrightarrow> input_marker lower line \<or> output_marker lower line"


text \<open>A string in which every run of whitespace is one space character.\<close>

fun single_spaced :: "pystr \<Rightarrow> bool" where
  "single_spaced [] = True"
| "single_spaced [c] = (isspace c \<longrightarrow> c = 0x20)"
| "single_spaced (c # d # cs) = ((isspace c \<longrightarrow> c = 0x20 \<and> \<not> isspace d) \<and> single_spaced (d # cs))"


text \<open>
  \<open>html.unescape\<close> returns a text without character references unchanged: for evaluating
  the program on such texts.
\<close>

definition unescape_plain :: "pystr \<Rightarrow> pystr" where
  "unescape_plain s = s"



section \<open>Data model\<close>

record TestCase =
  index :: int
  input_data :: pystr
  output_data :: pystr
  use_in_statements :: bool

record MoodleTask =
  name :: pystr
  legend :: pystr
  input_format :: pystr
  output_format :: pystr
  solution :: pystr
  tests :: "TestCase list"

text \<open>
  The exceptions the program raises: the \<open>ValueError\<close> of the export reader and the
  \<open>PolygonAPIError\<close>s of the remote client, each with what its message names.
  \<open>Python_exception\<close> stands for the exception Python raises by itself when a reply of
  the remote service does not have the shape the program assumes.
\<close>

datatype py_error =
    Malformed_question
  | Api_error pystr
  | Unexpected_create_response
  | Package_build_failed int
  | Package_build_timeout int
  | Python_exception

section \<open>Export reader\<close>

text \<open>
  An element of the parsed document, as \<open>xml.etree.ElementTree\<close> gives it: the tag, the
  attributes, the text before the first child (\<open>None\<close> when there is none) and the
  children in document order.
\<close>

datatype xml = Element (tag: pystr) (attrib: "(pystr \<times> pystr) list") (node_text: "pystr option")
  (children: "xml list")

definition child_elems :: "pystr \<Rightarrow> xml \<Rightarrow> xml list" where
  "child_elems t e = filter (\<lambda>c. tag c = t) (children e)"

text \<open>\<open>e.findall("a/b")\<close>: the \<open>b\<close> children of the \<open>a\<close> children, in document order.\<close>

definition findall2 :: "pystr \<Rightarrow> pystr \<Rightarrow> xml \<Rightarrow> xml list" where
  "findall2 a b e = concat (map (child_elems b) (child_elems a e))"

definition find1 :: "pystr \<Rightarrow> xml \<Rightarrow> xml option" where
  "find1 t e = (case child_elems t e of [] \<Rightarrow> None | x # _ \<Rightarrow> Some x)"

definition find2 :: "pystr \<Rightarrow> pystr \<Rightarrow> xml \<Rightarrow> xml option" where
  "find2 a b e = (case findall2 a b e of [] \<Rightarrow> None | x # _ \<Rightarrow> Some x)"

definition attr_get :: "xml \<Rightarrow> pystr \<Rightarrow> pystr \<Rightarrow> pystr" where
  "attr_get e k d = (case map_of (attrib e) k of None \<Rightarrow> d | Some v \<Rightarrow> v)"

text \<open>\<open>t or d\<close> for an optional string \<open>t\<close>: \<open>None\<close> and the empty string give \<open>d\<close>.\<close>

definition or_str :: "pystr option \<Rightarrow> pystr \<Rightarrow> pystr" where
  "or_str t d = (case t of None \<Rightarrow> d | Some s \<Rightarrow> if s = [] then d else s)"

definition strip_redundant_title :: "(pystr \<Rightarrow> pystr) \<Rightarrow> pystr \<Rightarrow> pystr \<Rightarrow> pystr" where
  "strip_redundant_title lower legend0 title =
     (if legend0 = [] then legend0
      else
        (case split_sep legend0 [0x0A, 0x0A] of
           [] \<Rightarrow> legend0
         | first # rest \<Rightarrow>
             let normalized_title = lower (normalize_whitespace title);
                 normalized_first = lower (normalize_whitespace first)
             in if normalized_first \<noteq> normalized_title then legend0
                else join [0x0A, 0x0A] (dropWhile (\<lambda>s. strip s = []) rest)))"

text \<open>
  Lines 290 to 299: \<open>idx\<close> is the counter of \<open>enumerate\<close>; it advances for every test
  entry, appended or skipped.
\<close>

fun collect_tests :: "int \<Rightarrow> xml list \<Rightarrow> TestCase list" where
  "collect_tests idx [] = []"
| "collect_tests idx (testcase # rest) =
     (case find2 (str ''stdin'') (str ''text'') testcase of
        None \<Rightarrow> collect_tests (idx + 1) rest
      | Some stdin_node \<Rightarrow>
          (case find2 (str ''expected'') (str ''text'') testcase of
             None \<Rightarrow> collect_tests (idx + 1) rest
           | Some expected_node \<Rightarrow>
               \<lparr>index = idx,
                input_data = or_str (node_text stdin_node) [],
                output_data = or_str (node_text expected_node) [],
                use_in_statements = (attr_get testcase (str ''useasexample'') (str ''0'') = str ''1'')\<rparr>
               # collect_tests (idx + 1) rest))"

definition question_tests :: "xml \<Rightarrow> TestCase list" where
  "question_tests question = collect_tests 1 (findall2 (str ''testcases'') (str ''testcase'') question)"

text \<open>Lines 278 to 310: the task of one \<open>coderunner\<close> question, or the \<open>ValueError\<close>.\<close>

definition coderunner_task ::
  "(pystr \<Rightarrow> pystr) \<Rightarrow> (pystr \<Rightarrow> pystr) \<Rightarrow> xml \<Rightarrow> py_error + MoodleTask" where
  "coderunner_task unescape lower question =
     (case find2 (str ''name'') (str ''text'') question of
        None \<Rightarrow> Inl Malformed_question
      | Some name_node \<Rightarrow>
     (case find2 (str ''questiontext'') (str ''text'') question of
        None \<Rightarrow> Inl Malformed_question
      | Some questiontext_node \<Rightarrow>
     (case find1 (str ''answer'') question of
        None \<Rightarrow> Inl Malformed_question
      | Some answer_node \<Rightarrow>
          (case extract_text_sections unescape lower (or_str (node_text questiontext_node) []) of
             (legend0, input_format0, output_format0) \<Rightarrow>
               let name0 = strip (or_str (node_text name_node) (str ''Unnamed task''))
               in Inr \<lparr>name = name0,
                       legend = strip_redundant_title lower legend0 name0,
                       input_format = input_format0,
                       output_format = output_format0,
                       solution = strip (or_str (node_text answer_node) []),
                       tests = question_tests question\<rparr>))))"

text \<open>Lines 268 to 272: the collection name a \<open>category\<close> question gives, if any.\<close>

definition category_name :: "pystr \<Rightarrow> xml \<Rightarrow> pystr" where
  "category_name contest_name question =
     (case find1 (str ''category'') question of
        None \<Rightarrow> contest_name
      | Some category \<Rightarrow>
          (case find1 (str ''text'') category of
             None \<Rightarrow> contest_name
           | Some text_node \<Rightarrow>
               (case node_text text_node of
                  None \<Rightarrow> contest_name
                | Some t \<Rightarrow>
                    if t = [] then contest_name else last (split_sep (strip t) (str ''/'')))))"

text \<open>The loop of lines 265 to 310 over the questions, with its two variables.\<close>

fun scan_questions ::
  "(pystr \<Rightarrow> pystr) \<Rightarrow> (pystr \<Rightarrow> pystr) \<Rightarrow> pystr \<Rightarrow> MoodleTask list \<Rightarrow> xml list \<Rightarrow>
   py_error + pystr \<times> MoodleTask list" where
  "scan_questions unescape lower contest_name tasks [] = Inr (contest_name, tasks)"
| "scan_questions unescape lower contest_name tasks (question # rest) =
     (let qtype = attr_get question (str ''type'') [] in
      if qtype = str ''category'' \<and> contest_name = []
        then scan_questions unescape lower (category_name contest_name question) tasks rest
      else if qtype \<noteq> str ''coderunner''
        then scan_questions unescape lower contest_name tasks rest
      else
        (case coderunner_task unescape lower question of
           Inl e \<Rightarrow> Inl e
         | Inr task \<Rightarrow> scan_questions unescape lower contest_name (tasks @ [task]) rest))"

text \<open>
  \<open>parse_moodle_xml\<close> on the root element of the parsed file; \<open>stem\<close> is the file name
  without its directory and suffix.
\<close>

definition parse_moodle_xml ::
  "(pystr \<Rightarrow> pystr) \<Rightarrow> (pystr \<Rightarrow> pystr) \<Rightarrow> pystr \<Rightarrow> xml \<Rightarrow> py_error + pystr \<times> MoodleTask list" where
  "parse_moodle_xml unescape lower stem root =
     (case scan_questions unescape lower [] [] (child_elems (str ''question'') root) of
        Inl e \<Rightarrow> Inl e
      | Inr (contest_name, tasks) \<Rightarrow>
          let contest_name1 = (if contest_name = [] then stem else contest_name)
          in Inr (if contest_name1 = [] then str ''Moodle Contest'' else contest_name1, tasks))"

text \<open>The questions that become tasks, and the fields a task needs.\<close>

definition is_coderunner :: "xml \<Rightarrow> bool" where
  "is_coderunner question \<longleftrightarrow> attr_get question (str ''type'') [] = str ''coderunner''"

definition lacks_field :: "xml \<Rightarrow> bool" where
  "lacks_field question \<longleftrightarrow>
     find2 (str ''name'') (str ''text'') question = None \<or>
     find2 (str ''questiontext'') (str ''text'') question = None \<or>
     find1 (str ''answer'') question = None"

definition complete_test :: "xml \<Rightarrow> bool" where
  "complete_test testcase \<longleftrightarrow>
     find2 (str ''stdin'') (str ''text'') testcase \<noteq> None \<and>
     find2 (str ''expected'') (str ''text'') testcase \<noteq> None"

section \<open>Checker selection\<close>

definition extract_first_word :: "pystr \<Rightarrow> pystr" where
  "extract_first_word v =
     (let stripped = lstrip v in
      if stripped = [] then []
      else (case split_ws1 stripped of [] \<Rightarrow> [] | part # _ \<Rightarrow> part))"

text \<open>
  The classes \<open>\d\<close> and \<open>str.isdigit\<close> follow the Unicode character database and
  \<open>float\<close> is the interpreter's parser; none is part of the program, so the three are
  parameters: \<open>isdecimal\<close> for \<open>\d\<close>, \<open>isdigit\<close> for \<open>str.isdigit\<close> and \<open>float_ok\<close>
  for the strings on which \<open>float\<close> does not raise.
\<close>

definition rx_integer :: "(nat \<Rightarrow> bool) \<Rightarrow> rx" where
  "rx_integer isdecimal = cat_list [Opt (Chr (\<lambda>c. c = 0x2B \<or> c = 0x2D)), rx_plus isdecimal]"

definition is_integer_token :: "(nat \<Rightarrow> bool) \<Rightarrow> pystr \<Rightarrow> bool" where
  "is_integer_token isdecimal token = re_fullmatch (rx_integer isdecimal) token"

definition is_float_token ::
  "(nat \<Rightarrow> bool) \<Rightarrow> (nat \<Rightarrow> bool) \<Rightarrow> (pystr \<Rightarrow> bool) \<Rightarrow> pystr \<Rightarrow> bool" where
  "is_float_token isdecimal isdigit float_ok token =
     (if token = [] \<or> is_integer_token isdecimal token then False
      else if \<not> float_ok token then False
      else list_ex isdigit token \<and> list_ex (\<lambda>ch. ch \<in> set (str ''.eE'')) token)"

definition select_checker ::
  "(nat \<Rightarrow> bool) \<Rightarrow> (nat \<Rightarrow> bool) \<Rightarrow> (pystr \<Rightarrow> bool) \<Rightarrow> MoodleTask \<Rightarrow> pystr" where
  "select_checker isdecimal isdigit float_ok task =
     (case tests task of
        [] \<Rightarrow> str ''std::lcmp.cpp''
      | first_test # _ \<Rightarrow>
          let first_word = extract_first_word (output_data first_test) in
          if first_word = [] then str ''std::lcmp.cpp''
          else if is_integer_token isdecimal first_word then str ''std::ncmp.cpp''
          else if is_float_token isdecimal isdigit float_ok first_word then str ''std::rcmp9.cpp''
          else str ''std::lcmp.cpp'')"

text \<open>
  The claim's words: the first whitespace-delimited token, and a token of digits with an
  optional sign in front.
\<close>

definition first_token :: "pystr \<Rightarrow> pystr" where
  "first_token v = takeWhile (\<lambda>c. \<not> isspace c) (dropWhile isspace v)"

definition signed_digits :: "(nat \<Rightarrow> bool) \<Rightarrow> pystr \<Rightarrow> bool" where
  "signed_digits isdecimal token \<longleftrightarrow>
     (token \<noteq> [] \<and> list_all isdecimal token) \<or>
     (case token of
        [] \<Rightarrow> False
      | c # ds \<Rightarrow> (c = 0x2B \<or> c = 0x2D) \<and> ds \<noteq> [] \<and> list_all isdecimal ds)"

text \<open>
  The ASCII digits, and \<open>float\<close> on the ASCII decimal literals (digits with an optional
  sign, fraction and exponent): for evaluating the program on such tokens.
\<close>

definition ascii_digit :: "nat \<Rightarrow> bool" where
  "ascii_digit c \<longleftrightarrow> 0x30 \<le> c \<and> c \<le> 0x39"

definition rx_ascii_float :: rx where
  "rx_ascii_float =
     cat_list
       [Opt (Chr (\<lambda>c. c = 0x2B \<or> c = 0x2D)),
        Alt (cat_list [rx_plus ascii_digit, Opt (cat_list [lit_str ''.'', Star ascii_digit])])
            (cat_list [lit_str ''.'', rx_plus ascii_digit]),
        Opt (cat_list [Chr (\<lambda>c. c = 0x65 \<or> c = 0x45), Opt (Chr (\<lambda>c. c = 0x2B \<or> c = 0x2D)),
                       rx_plus ascii_digit])]"

definition ascii_float_ok :: "pystr \<Rightarrow> bool" where
  "ascii_float_ok token = re_fullmatch rx_ascii_float token"

section \<open>Remote client\<close>

text \<open>The values the program puts into request parameters.\<close>

datatype pyval = PBool bool | PInt int | PStr pystr

text \<open>\<open>str\<close> of an integer: its decimal digits, with a minus sign when negative.\<close>

fun str_of_nat :: "nat \<Rightarrow> pystr" where
  "str_of_nat n = (if n < 10 then [0x30 + n] else str_of_nat (n div 10) @ [0x30 + n mod 10])"

declare str_of_nat.simps [simp del]

definition str_of_int :: "int \<Rightarrow> pystr" where
  "str_of_int i = (if i < 0 then 0x2D # str_of_nat (nat (- i)) else str_of_nat (nat i))"

definition bool_word :: "bool \<Rightarrow> pystr" where
  "bool_word v = (if v then str ''true'' else str ''false'')"

definition stringify_value :: "pyval \<Rightarrow> pystr" where
  "stringify_value v = (case v of PBool b \<Rightarrow> bool_word b | PInt i \<Rightarrow> str_of_int i | PStr s \<Rightarrow> s)"

text \<open>
  A \<open>dict\<close> is the list of its items in insertion order, with distinct keys. Assigning to a
  key replaces its value in place or appends a new item.
\<close>

fun dict_set :: "'k \<Rightarrow> 'v \<Rightarrow> ('k \<times> 'v) list \<Rightarrow> ('k \<times> 'v) list" where
  "dict_set k v [] = [(k, v)]"
| "dict_set k v ((k', v') # d) = (if k' = k then (k, v) # d else (k', v') # dict_set k v d)"

record PolygonAPI =
  api_url :: pystr
  api_key :: pystr
  api_secret :: pystr

definition new_api :: "pystr \<Rightarrow> pystr \<Rightarrow> pystr \<Rightarrow> PolygonAPI" where
  "new_api url key secret =
     \<lparr>api_url = rev (dropWhile (\<lambda>c. c = 0x2F) (rev url)), api_key = key, api_secret = secret\<rparr>"

text \<open>
  \<open>_build_signature\<close>. The six random hexadecimal digits \<open>rand\<close> come from the
  generator and the digest from \<open>hashlib\<close>: \<open>sha512_hex s\<close> stands for the hexadecimal
  SHA-512 digest of the UTF-8 encoding of \<open>s\<close>. Both are parameters.
\<close>

definition build_signature ::
  "(pystr \<Rightarrow> pystr) \<Rightarrow> pystr \<Rightarrow> PolygonAPI \<Rightarrow> pystr \<Rightarrow> (pystr \<times> pystr) list \<Rightarrow> pystr" where
  "build_signature sha512_hex rand api method params =
     (let sorted_items = sort_key (\<lambda>item. (fst item, snd item)) params;
          query = join (str ''&'') (map (\<lambda>(key, v). key @ str ''='' @ v) sorted_items);
          signature_base = rand @ str ''/'' @ method @ str ''?'' @ query @ str ''#'' @ api_secret api;
          digest = sha512_hex signature_base
      in rand @ digest)"

text \<open>Line 82: every value of the dictionary as a string.\<close>

definition stringify_items :: "(pystr \<times> pyval) list \<Rightarrow> (pystr \<times> pystr) list" where
  "stringify_items params = map (\<lambda>item. (fst item, stringify_value (snd item))) params"

text \<open>
  Lines 78 to 84 of \<open>request\<close>: the parameters that are sent, \<open>now\<close> being the clock
  reading.
\<close>

definition request_params ::
  "(pystr \<Rightarrow> pystr) \<Rightarrow> pystr \<Rightarrow> int \<Rightarrow> PolygonAPI \<Rightarrow> pystr \<Rightarrow> (pystr \<times> pyval) list \<Rightarrow>
   (pystr \<times> pystr) list" where
  "request_params sha512_hex rand now api method params0 =
     (let params1 = dict_set (str ''apiKey'') (PStr (api_key api)) params0;
          params2 = dict_set (str ''time'') (PStr (str_of_int now)) params1;
          params3 = stringify_items params2;
          signature = build_signature sha512_hex rand api method params3
      in dict_set (str ''apiSig'') signature params3)"

text \<open>
  What the program reads of a reply of the service. An object shows its \<open>id\<close> (as
  \<open>int\<close> converts it), its \<open>creationTimeSeconds\<close> and its \<open>state\<close>, each if present.
  A result is an object, a list of objects, a result that Python takes for false
  (\<open>null\<close>, a missing result, an empty object) or another scalar.
\<close>

record api_object =
  object_id :: "int option"
  creationTimeSeconds :: "int option"
  state :: "pystr option"

datatype api_result =
    Null_result
  | Scalar_result
  | Object api_object
  | Object_list "api_object list"

text \<open>
  The world outside the program: the reply to each request in turn (\<open>Inl\<close> the message
  when \<open>request\<close> raises \<open>PolygonAPIError\<close>), the seconds each request takes, and the
  seconds each \<open>time.sleep\<close> lasts beyond what was asked.
\<close>

record remote =
  reply :: "nat \<Rightarrow> pystr + api_result"
  elapsed :: "nat \<Rightarrow> nat"
  oversleep :: "nat \<Rightarrow> nat"

text \<open>
  The state of a run: the requests and sleeps made so far, the reading of the clock in
  seconds (\<open>_now\<close>), and the requests sent, each a method with its parameters.
\<close>

record world =
  calls :: nat
  sleeps :: nat
  clock :: int
  sent :: "(pystr \<times> (pystr \<times> pyval) list) list"

definition request ::
  "remote \<Rightarrow> world \<Rightarrow> pystr \<Rightarrow> (pystr \<times> pyval) list \<Rightarrow> (py_error + api_result) \<times> world" where
  "request env w method params =
     (let w1 = w\<lparr>calls := calls w + 1, clock := clock w + int (elapsed env (calls w)),
                  sent := sent w @ [(method, params)]\<rparr>
      in case reply env (calls w) of
           Inl message \<Rightarrow> (Inl (Api_error message), w1)
         | Inr result \<Rightarrow> (Inr result, w1))"

definition sleep :: "remote \<Rightarrow> world \<Rightarrow> int \<Rightarrow> world" where
  "sleep env w secs =
     w\<lparr>sleeps := sleeps w + 1, clock := clock w + secs + int (oversleep env (sleeps w))\<rparr>"

text \<open>\<open>max(packages, key=...)\<close>: the first package among those created last.\<close>

definition creation_key :: "api_object \<Rightarrow> int" where
  "creation_key pkg = (case creationTimeSeconds pkg of None \<Rightarrow> 0 | Some t \<Rightarrow> t)"

fun latest_package :: "api_object \<Rightarrow> api_object list \<Rightarrow> api_object" where
  "latest_package best [] = best"
| "latest_package best (pkg # pkgs) =
     latest_package (if creation_key best < creation_key pkg then pkg else best) pkgs"

text \<open>The loop of \<open>wait_for_package\<close> with the deadline computed before it.\<close>

function poll_packages :: "remote \<Rightarrow> int \<Rightarrow> int \<Rightarrow> world \<Rightarrow> (py_error + unit) \<times> world" where
  "poll_packages env problem_id deadline w =
     (if clock w < deadline then
        (case request env w (str ''problem.packages'') [(str ''problemId'', PInt problem_id)] of
           (Inl e, w1) \<Rightarrow> (Inl e, w1)
         | (Inr Null_result, w1) \<Rightarrow> poll_packages env problem_id deadline (sleep env w1 2)
         | (Inr (Object_list []), w1) \<Rightarrow> poll_packages env problem_id deadline (sleep env w1 2)
         | (Inr (Object_list (pkg # pkgs)), w1) \<Rightarrow>
             (let latest = latest_package pkg pkgs in
              if state latest = Some (str ''READY'') then (Inr (), w1)
              else if state latest = Some (str ''FAILED'')
                then (Inl (Package_build_failed problem_id), w1)
              else poll_packages env problem_id deadline (sleep env w1 2))
         | (Inr other, w1) \<Rightarrow> (Inl Python_exception, w1))
      else (Inl (Package_build_timeout problem_id), w))"
  by pat_completeness auto
termination
  by (relation "measure (\<lambda>(env, problem_id, deadline, w). nat (deadline - clock w))")
     (auto simp: request_def sleep_def Let_def split: sum.splits)

declare poll_packages.simps [simp del]

definition wait_for_package :: "remote \<Rightarrow> int \<Rightarrow> int \<Rightarrow> world \<Rightarrow> (py_error + unit) \<times> world" where
  "wait_for_package env problem_id timeout w =
     poll_packages env problem_id (clock w + timeout) w"

definition default_timeout :: int where
  "default_timeout = 300"

text \<open>The parameters of the requests of \<open>create_polygon_problem\<close>.\<close>

definition update_info_params :: "int \<Rightarrow> (pystr \<times> pyval) list" where
  "update_info_params problem_id =
     [(str ''problemId'', PInt problem_id), (str ''inputFile'', PStr (str ''stdin'')),
      (str ''outputFile'', PStr (str ''stdout'')), (str ''timeLimit'', PInt 2000),
      (str ''memoryLimit'', PInt 256), (str ''interactive'', PBool False)]"

definition statement_params :: "int \<Rightarrow> MoodleTask \<Rightarrow> (pystr \<times> pyval) list" where
  "statement_params problem_id task =
     [(str ''problemId'', PInt problem_id), (str ''lang'', PStr (str ''russian'')),
      (str ''name'', PStr (name task)),
      (str ''legend'', PStr (if legend task \<noteq> [] then legend task else name task)),
      (str ''input'', PStr (input_format task)), (str ''output'', PStr (output_format task))]"

definition solution_params :: "int \<Rightarrow> MoodleTask \<Rightarrow> (pystr \<times> pyval) list" where
  "solution_params problem_id task =
     [(str ''problemId'', PInt problem_id), (str ''name'', PStr (str ''solution.py'')),
      (str ''file'', PStr (solution task)), (str ''sourceType'', PStr (str ''python.3'')),
      (str ''tag'', PStr (str ''MA''))]"

definition test_params :: "int \<Rightarrow> TestCase \<Rightarrow> (pystr \<times> pyval) list" where
  "test_params problem_id test =
     (let params =
            [(str ''problemId'', PInt problem_id), (str ''testset'', PStr (str ''tests'')),
             (str ''testIndex'', PInt (index test)), (str ''testInput'', PStr (input_data test)),
             (str ''testAnswer'', PStr (output_data test))]
      in if use_in_statements test
         then params @
              [(str ''testUseInStatements'', PBool True),
               (str ''testInputForStatements'', PStr (input_data test)),
               (str ''testOutputForStatements'', PStr (output_data test))]
         else params)"

fun save_tests :: "remote \<Rightarrow> int \<Rightarrow> TestCase list \<Rightarrow> world \<Rightarrow> (py_error + unit) \<times> world" where
  "save_tests env problem_id [] w = (Inr (), w)"
| "save_tests env problem_id (test # rest) w =
     (case request env w (str ''problem.saveTest'') (test_params problem_id test) of
        (Inl e, w1) \<Rightarrow> (Inl e, w1)
      | (Inr _, w1) \<Rightarrow> save_tests env problem_id rest w1)"

text \<open>Lines 330 to 335: the identifier in the reply to \<open>problem.create\<close>.\<close>

definition created_id :: "api_result \<Rightarrow> py_error + int" where
  "created_id problem =
     (case problem of
        Object obj \<Rightarrow>
          (case object_id obj of Some i \<Rightarrow> Inr i | None \<Rightarrow> Inl Unexpected_create_response)
      | Object_list (obj # _) \<Rightarrow>
          (case object_id obj of Some i \<Rightarrow> Inr i | None \<Rightarrow> Inl Unexpected_create_response)
      | _ \<Rightarrow> Inl Unexpected_create_response)"

text \<open>
  Lines 337 to 402, once the problem has its identifier: each request in turn, the first
  error ending the run.
\<close>

definition configure_problem ::
  "(nat \<Rightarrow> bool) \<Rightarrow> (nat \<Rightarrow> bool) \<Rightarrow> (pystr \<Rightarrow> bool) \<Rightarrow> remote \<Rightarrow> int \<Rightarrow> MoodleTask \<Rightarrow> world \<Rightarrow>
   (py_error + int) \<times> world" where
  "configure_problem isdecimal isdigit float_ok env problem_id task w0 =
     (case request env w0 (str ''problem.updateInfo'') (update_info_params problem_id) of
        (Inl e, w1) \<Rightarrow> (Inl e, w1)
      | (Inr _, w1) \<Rightarrow>
     (case request env w1 (str ''problem.saveStatement'') (statement_params problem_id task) of
        (Inl e, w2) \<Rightarrow> (Inl e, w2)
      | (Inr _, w2) \<Rightarrow>
     (let checker = select_checker isdecimal isdigit float_ok task in
      case request env w2 (str ''problem.setChecker'')
             [(str ''problemId'', PInt problem_id), (str ''checker'', PStr checker)] of
        (Inl e, w3) \<Rightarrow> (Inl e, w3)
      | (Inr _, w3) \<Rightarrow>
     (case request env w3 (str ''problem.saveSolution'') (solution_params problem_id task) of
        (Inl e, w4) \<Rightarrow> (Inl e, w4)
      | (Inr _, w4) \<Rightarrow>
     (case save_tests env problem_id (tests task) w4 of
        (Inl e, w5) \<Rightarrow> (Inl e, w5)
      | (Inr _, w5) \<Rightarrow>
     (case request env w5 (str ''problem.commitChanges'')
             [(str ''problemId'', PInt problem_id), (str ''minorChanges'', PBool False)] of
        (Inl e, w6) \<Rightarrow> (Inl e, w6)
      | (Inr _, w6) \<Rightarrow>
     (case request env w6 (str ''problem.buildPackage'')
             [(str ''problemId'', PInt problem_id), (str ''full'', PBool True),
              (str ''verify'', PBool True)] of
        (Inl e, w7) \<Rightarrow> (Inl e, w7)
      | (Inr _, w7) \<Rightarrow>
     (case wait_for_package env problem_id default_timeout w7 of
        (Inl e, w8) \<Rightarrow> (Inl e, w8)
      | (Inr _, w8) \<Rightarrow> (Inr problem_id, w8)))))))))"

definition create_polygon_problem ::
  "(nat \<Rightarrow> bool) \<Rightarrow> (nat \<Rightarrow> bool) \<Rightarrow> (pystr \<Rightarrow> bool) \<Rightarrow> remote \<Rightarrow> pystr \<Rightarrow> MoodleTask \<Rightarrow> world \<Rightarrow>
   (py_error + int) \<times> world" where
  "create_polygon_problem isdecimal isdigit float_ok env problem_code task w =
     (case request env w (str ''problem.create'') [(str ''name'', PStr problem_code)] of
        (Inl e, w0) \<Rightarrow> (Inl e, w0)
      | (Inr problem, w0) \<Rightarrow>
          (case created_id problem of
             Inl e \<Rightarrow> (Inl e, w0)
           | Inr problem_id \<Rightarrow>
               configure_problem isdecimal isdigit float_ok env problem_id task w0))"

text \<open>One item of the query string.\<close>

definition item_text :: "pystr \<times> pystr \<Rightarrow> pystr" where
  "item_text item = fst item @ str ''='' @ snd item"

text \<open>
  A reply to \<open>problem.packages\<close> after which the loop goes on: no packages, or the
  package created last is neither ready nor failed.
\<close>

definition pending :: "py_error + api_result \<Rightarrow> bool" where
  "pending r \<longleftrightarrow>
     r = Inr Null_result \<or> r = Inr (Object_list []) \<or>
     (\<exists>pkg pkgs. r = Inr (Object_list (pkg # pkgs)) \<and>
        state (latest_package pkg pkgs) \<noteq> Some (str ''READY'') \<and>
        state (latest_package pkg pkgs) \<noteq> Some (str ''FAILED''))"

text \<open>\<open>enumerate(xs, start=k)\<close>.\<close>

fun enumerate_from :: "int \<Rightarrow> 'a list \<Rightarrow> (int \<times> 'a) list" where
  "enumerate_from k [] = []"
| "enumerate_from k (x # xs) = (k, x) # enumerate_from (k + 1) xs"

section \<open>Sample documents\<close>

text \<open>Small exports and tasks on which the program is evaluated.\<close>

definition text_elem :: "string \<Rightarrow> pystr option \<Rightarrow> xml" where
  "text_elem t body = Element (str t) [] None [Element (str ''text'') [] body []]"

definition testcase_both :: xml where
  "testcase_both =
     Element (str ''testcase'') [(str ''useasexample'', str ''1'')] None
       [text_elem ''stdin'' (Some (str ''1 2'')), text_elem ''expected'' (Some (str ''3''))]"

definition testcase_no_expected :: xml where
  "testcase_no_expected =
     Element (str ''testcase'') [] None [text_elem ''stdin'' (Some (str ''5 6''))]"

definition question_of :: "xml list \<Rightarrow> xml" where
  "question_of parts = Element (str ''question'') [(str ''type'', str ''coderunner'')] None parts"

definition question_two_tests :: xml where
  "question_two_tests =
     question_of
       [text_elem ''name'' (Some (str ''Sum'')),
        text_elem ''questiontext'' (Some (str ''Compute a+b.'')),
        Element (str ''answer'') [] (Some (str ''print(3)'')) [],
        Element (str ''testcases'') [] None [testcase_both, testcase_both]]"

definition question_gap :: xml where
  "question_gap =
     question_of
       [text_elem ''name'' (Some (str ''Sum'')),
        text_elem ''questiontext'' (Some (str ''Compute a+b.'')),
        Element (str ''answer'') [] (Some (str ''print(3)'')) [],
        Element (str ''testcases'') [] None [testcase_no_expected, testcase_both]]"

definition question_unnamed :: xml where
  "question_unnamed =
     question_of
       [text_elem ''name'' None,
        text_elem ''questiontext'' (Some (str ''Compute a+b.'')),
        Element (str ''answer'') [] (Some (str ''print(3)'')) []]"

definition question_no_answer :: xml where
  "question_no_answer =
     question_of
       [text_elem ''name'' (Some (str ''Sum'')),
        text_elem ''questiontext'' (Some (str ''Compute a+b.''))]"

definition question_bare_name :: xml where
  "question_bare_name =
     question_of
       [Element (str ''name'') [] None [],
        text_elem ''questiontext'' (Some (str ''Compute a+b.'')),
        Element (str ''answer'') [] (Some (str ''print(3)'')) []]"

definition quiz :: "xml list \<Rightarrow> xml" where
  "quiz questions = Element (str ''quiz'') [] None questions"

definition task_expecting :: "pystr \<Rightarrow> MoodleTask" where
  "task_expecting expected =
     \<lparr>name = str ''Sum'', legend = str ''Compute a+b.'', input_format = no_input_text,
      output_format = no_output_text, solution = str ''print(3)'',
      tests = [\<lparr>index = 1, input_data = str ''1 2'', output_data = expected,
                use_in_statements = True\<rparr>]\<rparr>"

text \<open>A service that reports no package, then a running build, then a finished one.\<close>

definition created_object :: api_result where
  "created_object = Object \<lparr>object_id = Some 42, creationTimeSeconds = None, state = None\<rparr>"

definition package_in :: "int \<Rightarrow> string \<Rightarrow> api_object" where
  "package_in t s = \<lparr>object_id = None, creationTimeSeconds = Some t, state = Some (str s)\<rparr>"

definition building_remote :: remote where
  "building_remote =
     \<lparr>reply = (\<lambda>k. if k = 0 then Inr (Object_list [])
                   else if k = 1 then Inr (Object_list [package_in 5 ''READY'', package_in 9 ''RUNNING''])
                   else Inr (Object_list [package_in 5 ''READY'', package_in 9 ''READY''])),
      elapsed = (\<lambda>k. 1), oversleep = (\<lambda>k. 0)\<rparr>"

definition start_world :: world where
  "start_world = \<lparr>calls = 0, sleeps = 0, clock = 1700000000, sent = []\<rparr>"

section \<open>Properties of the text classifier\<close>

lemma markers_disjoint: "input_marker lower l \<Longrightarrow> \<not> output_marker lower l"
  by (cases "lower l" rule: list.exhaust; cases "tl (lower l)")
     (auto simp: input_marker_def output_marker_def startswith_def word_vhod_def word_vyhod_def str_def)

lemma scan_line_input: "input_marker lower l \<Longrightarrow> scan_line lower st l = st\<lparr>current := Input\<rparr>"
  by (auto simp: scan_line_def input_marker_def Let_def)

lemma scan_line_output: "output_marker lower l \<Longrightarrow> scan_line lower st l = st\<lparr>current := Output\<rparr>"
  using markers_disjoint[of lower l]
  by (auto simp: scan_line_def input_marker_def output_marker_def Let_def)

lemma scan_line_plain:
  "\<not> marker lower l \<Longrightarrow> scan_line lower st l =
     (case current st of
        Legend \<Rightarrow> st\<lparr>legend_lines := legend_lines st @ [l]\<rparr>
      | Input \<Rightarrow> st\<lparr>input_lines := input_lines st @ [l]\<rparr>
      | Output \<Rightarrow> st\<lparr>output_lines := output_lines st @ [l]\<rparr>)"
  by (cases "current st") (auto simp: scan_line_def marker_def input_marker_def output_marker_def Let_def)

lemma scan_plain_run:
  "\<forall>l\<in>set ls. \<not> marker lower l \<Longrightarrow> foldl (scan_line lower) st ls =
     (case current st of
        Legend \<Rightarrow> st\<lparr>legend_lines := legend_lines st @ ls\<rparr>
      | Input \<Rightarrow> st\<lparr>input_lines := input_lines st @ ls\<rparr>
      | Output \<Rightarrow> st\<lparr>output_lines := output_lines st @ ls\<rparr>)"
proof (induction ls arbitrary: st)
  case Nil
  then show ?case by (cases "current st") auto
next
  case (Cons l ls)
  then show ?case by (cases "current st") (auto simp: scan_line_plain)
qed


lemma scan_sections:
  assumes leg: "\<forall>l\<in>set leg. \<not> marker lower l"
    and ins: "\<forall>l\<in>set ins. \<not> marker lower l"
    and outs: "\<forall>l\<in>set outs. \<not> marker lower l"
    and mi: "input_marker lower mi" and mo: "output_marker lower mo"
  shows "scan_lines lower (leg @ [mi] @ ins @ [mo] @ outs) =
           \<lparr>current = Output, legend_lines = leg, input_lines = ins, output_lines = outs\<rparr>"
  using assms
  by (simp add: scan_lines_def scan_plain_run scan_line_input scan_line_output scan_start_def)

text \<open>
  Claim C3, as the code has it. When the stripped, non-empty lines of the text are some
  legend lines, an input marker line, at least one input line, an output marker line and
  at least one output line, and none of the legend, input and output lines is itself a
  marker line, the classifier returns the legend lines joined by blank lines, the input
  lines joined by newlines and the output lines joined by newlines; the two marker lines
  appear in none of the three.
\<close>

theorem sections_between_markers:
  assumes "text_lines (markup_text unescape html) = leg @ [mi] @ ins @ [mo] @ outs"
    and "input_marker lower mi" and "output_marker lower mo"
    and "\<forall>l\<in>set (leg @ ins @ outs). \<not> marker lower l"
    and "ins \<noteq> []" and "outs \<noteq> []"
  shows "extract_text_sections unescape lower html =
           (join [0x0A, 0x0A] leg, join [0x0A] ins, join [0x0A] outs)"
proof -
  have "scan_lines lower (leg @ [mi] @ ins @ [mo] @ outs) =
           \<lparr>current = Output, legend_lines = leg, input_lines = ins, output_lines = outs\<rparr>"
    using assms by (intro scan_sections) auto
  then show ?thesis
    using assms by (simp add: extract_text_sections_def Let_def)
qed

lemma scan_legend_takeWhile:
  "current st = Legend \<Longrightarrow>
   legend_lines (foldl (scan_line lower) st ls) =
     legend_lines st @ takeWhile (\<lambda>l. \<not> marker lower l) ls"
proof (induction ls arbitrary: st)
  case Nil
  then show ?case by simp
next
  case (Cons l ls)
  show ?case
  proof (cases "marker lower l")
    case False
    with Cons show ?thesis by (simp add: scan_line_plain)
  next
    case True
    have frozen: "current st' \<noteq> Legend \<Longrightarrow>
        legend_lines (foldl (scan_line lower) st' ks) = legend_lines st' \<and>
        current (foldl (scan_line lower) st' ks) \<noteq> Legend" for st' ks
    proof (induction ks arbitrary: st')
      case Nil
      then show ?case by simp
    next
      case (Cons k ks)
      have "current (scan_line lower st' k) \<noteq> Legend \<and>
            legend_lines (scan_line lower st' k) = legend_lines st'"
        using Cons.prems
        by (cases "input_marker lower k"; cases "output_marker lower k"; cases "current st'")
           (auto simp: scan_line_input scan_line_output scan_line_plain marker_def)
      with Cons.IH[of "scan_line lower st' k"] show ?case by simp
    qed
    from True have "current (scan_line lower st l) \<noteq> Legend \<and>
        legend_lines (scan_line lower st l) = legend_lines st"
      by (auto simp: marker_def scan_line_input scan_line_output)
    with frozen[of "scan_line lower st l" ls] True show ?thesis by simp
  qed
qed

lemma scan_no_input:
  "\<forall>l\<in>set ls. \<not> input_marker lower l \<Longrightarrow> current st \<noteq> Input \<Longrightarrow>
   input_lines (foldl (scan_line lower) st ls) = input_lines st \<and>
   current (foldl (scan_line lower) st ls) \<noteq> Input"
proof (induction ls arbitrary: st)
  case Nil
  then show ?case by simp
next
  case (Cons l ls)
  have "current (scan_line lower st l) \<noteq> Input \<and>
        input_lines (scan_line lower st l) = input_lines st"
    using Cons.prems
    by (cases "output_marker lower l"; cases "current st")
       (auto simp: scan_line_output scan_line_plain marker_def)
  with Cons.IH[of "scan_line lower st l"] Cons.prems show ?case by simp
qed

lemma scan_no_output:
  "\<forall>l\<in>set ls. \<not> output_marker lower l \<Longrightarrow> current st \<noteq> Output \<Longrightarrow>
   output_lines (foldl (scan_line lower) st ls) = output_lines st \<and>
   current (foldl (scan_line lower) st ls) \<noteq> Output"
proof (induction ls arbitrary: st)
  case Nil
  then show ?case by simp
next
  case (Cons l ls)
  have "current (scan_line lower st l) \<noteq> Output \<and>
        output_lines (scan_line lower st l) = output_lines st"
    using Cons.prems
    by (cases "input_marker lower l"; cases "current st")
       (auto simp: scan_line_input scan_line_plain marker_def)
  with Cons.IH[of "scan_line lower st l"] Cons.prems show ?case by simp
qed

text \<open>
  Claim C7. The legend is the legend buffer joined with blank lines, and that buffer holds
  the lines before the first marker line. If no line is an input marker the input format
  is the fixed placeholder, if no line is an output marker the output format is the fixed
  placeholder, and neither placeholder is the empty string.
\<close>

theorem legend_joined_placeholders:
  "extract_text_sections unescape lower html = (leg, inp, outp) \<Longrightarrow>
   ls = text_lines (markup_text unescape html) \<Longrightarrow>
   leg = join [0x0A, 0x0A] (legend_lines (scan_lines lower ls)) \<and>
   legend_lines (scan_lines lower ls) = takeWhile (\<lambda>l. \<not> marker lower l) ls \<and>
   ((\<forall>l\<in>set ls. \<not> input_marker lower l) \<longrightarrow> inp = no_input_text) \<and>
   ((\<forall>l\<in>set ls. \<not> output_marker lower l) \<longrightarrow> outp = no_output_text) \<and>
   no_input_text \<noteq> [] \<and> no_output_text \<noteq> []"
  using scan_legend_takeWhile[of scan_start lower ls]
    scan_no_input[of ls lower scan_start] scan_no_output[of ls lower scan_start]
  by (auto simp: extract_text_sections_def Let_def scan_lines_def scan_start_def
      no_input_text_def no_output_text_def)

lemma star_ends_hd: "\<exists>t. rx_ends (Star p) s = dropWhile p s # t"
  by (induction s) auto

lemma spaces_ends_Cons:
  "rx_ends rx_spaces (c # cs) = (if isspace c then rx_ends (Star isspace) cs else [])"
  by (simp add: rx_spaces_def rx_plus_def)

lemma re_sub_spaces_Nil: "re_sub rx_spaces r [] = []"
  by (subst re_sub.simps) (simp add: rx_spaces_def rx_plus_def)

lemma re_sub_spaces_plain:
  "\<not> isspace c \<Longrightarrow> re_sub rx_spaces r (c # cs) = c # re_sub rx_spaces r cs"
  by (subst re_sub.simps) (simp add: spaces_ends_Cons)

lemma re_sub_spaces_run:
  "isspace c \<Longrightarrow> re_sub rx_spaces r (c # cs) = r @ re_sub rx_spaces r (dropWhile isspace cs)"
proof -
  assume c: "isspace c"
  obtain t where t: "rx_ends (Star isspace) cs = dropWhile isspace cs # t"
    using star_ends_hd by blast
  have "length (dropWhile isspace cs) < length (c # cs)"
    by (simp add: length_dropWhile_le le_imp_less_Suc)
  with c t show ?thesis
    by (subst re_sub.simps) (simp add: spaces_ends_Cons)
qed

lemma re_sub_spaces_length: "length (re_sub rx_spaces [0x20] s) \<le> length s"
proof (induction s rule: length_induct)
  case (1 s)
  show ?case
  proof (cases s)
    case Nil
    then show ?thesis by (simp add: re_sub_spaces_Nil)
  next
    case (Cons c cs)
    show ?thesis
    proof (cases "isspace c")
      case False
      with 1 Cons show ?thesis by (simp add: re_sub_spaces_plain)
    next
      case True
      have "length (dropWhile isspace cs) \<le> length cs" by (rule length_dropWhile_le)
      moreover from this 1 Cons
      have "length (re_sub rx_spaces [0x20] (dropWhile isspace cs)) \<le> length (dropWhile isspace cs)"
        by simp
      ultimately show ?thesis using True Cons by (simp add: re_sub_spaces_run)
    qed
  qed
qed

lemma re_sub_spaces_fixed: "re_sub rx_spaces [0x20] s = s \<longleftrightarrow> single_spaced s"
proof (induction s rule: single_spaced.induct)
  case 1
  then show ?case by (simp add: re_sub_spaces_Nil)
next
  case (2 c)
  then show ?case
    by (cases "isspace c") (auto simp: re_sub_spaces_plain re_sub_spaces_run re_sub_spaces_Nil)
next
  case (3 c d cs)
  show ?case
  proof (cases "isspace c")
    case False
    with 3 show ?thesis by (simp add: re_sub_spaces_plain)
  next
    case True
    show ?thesis
    proof (cases "isspace d")
      case False
      with True 3 show ?thesis by (auto simp: re_sub_spaces_run)
    next
      case d: True
      have "length (re_sub rx_spaces [0x20] (dropWhile isspace cs)) \<le> length cs"
        using re_sub_spaces_length[of "dropWhile isspace cs"] length_dropWhile_le[of isspace cs]
        by linarith
      then have "re_sub rx_spaces [0x20] (dropWhile isspace cs) \<noteq> d # cs"
        by auto
      with True d show ?thesis by (simp add: re_sub_spaces_run)
    qed
  qed
qed

lemma dropWhile_fixed: "s \<noteq> [] \<Longrightarrow> \<not> isspace (hd s) \<Longrightarrow> dropWhile isspace s = s"
  by (cases s) auto

lemma dropWhile_shorter:
  "s \<noteq> [] \<Longrightarrow> isspace (hd s) \<Longrightarrow> length (dropWhile isspace s) < length s"
  by (cases s) (auto simp: le_imp_less_Suc length_dropWhile_le)

lemma strip_fixed_iff:
  "strip s = s \<longleftrightarrow> s = [] \<or> (\<not> isspace (hd s) \<and> \<not> isspace (last s))"
proof (cases "s = []")
  case True
  then show ?thesis by (simp add: strip_def lstrip_def rstrip_def)
next
  case ne: False
  have le: "length (strip s) \<le> length (dropWhile isspace s)"
    using length_dropWhile_le[of isspace "rev (dropWhile isspace s)"]
    by (simp add: strip_def lstrip_def rstrip_def)
  show ?thesis
  proof (cases "isspace (hd s)")
    case True
    with ne le dropWhile_shorter[of s] have "length (strip s) < length s" by simp
    then have "strip s \<noteq> s" by auto
    with True ne show ?thesis by simp
  next
    case False
    with ne have l: "strip s = rev (dropWhile isspace (rev s))"
      by (simp add: strip_def lstrip_def rstrip_def dropWhile_fixed)
    have h: "hd (rev s) = last s" using ne by (simp add: hd_rev)
    show ?thesis
    proof (cases "isspace (last s)")
      case True
      with ne h dropWhile_shorter[of "rev s"] have "length (strip s) < length s"
        by (simp add: l)
      then have "strip s \<noteq> s" by auto
      with True ne show ?thesis by simp
    next
      case y: False
      with ne h dropWhile_fixed[of "rev s"] have "strip s = s" by (simp add: l)
      with y False show ?thesis by simp
    qed
  qed
qed

lemma strip_result: "strip s = [] \<or> (\<not> isspace (hd (strip s)) \<and> \<not> isspace (last (strip s)))"
proof -
  let ?t = "dropWhile isspace s"
  let ?u = "dropWhile isspace (rev ?t)"
  have u: "strip s = rev ?u" by (simp add: strip_def lstrip_def rstrip_def)
  show ?thesis
  proof (cases "?u = []")
    case True
    then show ?thesis using u by simp
  next
    case False
    then have hu: "\<not> isspace (hd ?u)" by (rule hd_dropWhile)
    have "?t \<noteq> []"
    proof
      assume a: "?t = []"
      have "?u = []" unfolding a by simp
      with False show False by simp
    qed
    then have ht: "\<not> isspace (hd ?t)" by (rule hd_dropWhile)
    obtain pre where pre: "rev ?t = pre @ ?u"
      using takeWhile_dropWhile_id[of isspace "rev ?t"] by metis
    then have "?t = rev ?u @ rev pre" by (metis rev_append rev_rev_ident)
    with False have "hd (rev ?u) = hd ?t" by (metis hd_append2 rev_is_Nil_conv)
    moreover have "last (rev ?u) = hd ?u" using False by (simp add: last_rev)
    ultimately show ?thesis using u hu ht by simp
  qed
qed

lemma text_lines_stripped:
  "l \<in> set (text_lines t) \<Longrightarrow> l \<noteq> [] \<and> \<not> isspace (hd l) \<and> \<not> isspace (last l)"
  using strip_result by (auto simp: text_lines_def)

lemma join_hd_last:
  "ls \<noteq> [] \<Longrightarrow> \<forall>l\<in>set ls. l \<noteq> [] \<Longrightarrow>
   join sep ls \<noteq> [] \<and> hd (join sep ls) = hd (hd ls) \<and> last (join sep ls) = last (last ls)"
  by (induction sep ls rule: join.induct) auto

lemma scan_legend_subset:
  "set (legend_lines (scan_lines lower ls)) \<subseteq> set ls"
  using scan_legend_takeWhile[of scan_start lower ls] set_takeWhileD
  by (fastforce simp: scan_lines_def scan_start_def)

lemma single_spaced_tl: "single_spaced (c # s) \<Longrightarrow> single_spaced s"
  by (cases s) auto

lemma blank_line_not_single_spaced: "\<not> single_spaced (a @ [0x0A, 0x0A] @ b)"
proof (induction a)
  case Nil
  then show ?case by (simp add: isspace_def)
next
  case (Cons c a)
  then show ?case using single_spaced_tl[of c "a @ [0x0A, 0x0A] @ b"] by auto
qed

lemma join_two_lines:
  "2 \<le> length ls \<Longrightarrow> \<exists>a b. join [0x0A, 0x0A] ls = a @ [0x0A, 0x0A] @ b"
proof (cases ls)
  case Nil
  assume "2 \<le> length ls"
  with Nil show ?thesis by simp
next
  case (Cons x xs)
  assume l: "2 \<le> length ls"
  with Cons obtain y ys where "xs = y # ys" by (cases xs) auto
  with Cons have "join [0x0A, 0x0A] ls = x @ [0x0A, 0x0A] @ join [0x0A, 0x0A] (y # ys)" by simp
  then show ?thesis by blast
qed

text \<open>
  Claim C8, as the code has it. The legend is the lines before the first marker line
  joined by blank lines. It has no whitespace at either end, so stripping leaves it
  unchanged; whitespace normalization leaves it unchanged exactly when every run of
  whitespace in it is one space character; and every legend of two or more lines holds a
  blank-line separator and is changed by normalization.
\<close>

theorem legend_normalization:
  assumes "buffer = takeWhile (\<lambda>l. \<not> marker lower l) (text_lines (markup_text unescape html))"
    and "leg = fst (extract_text_sections unescape lower html)"
  shows "leg = join [0x0A, 0x0A] buffer \<and>
         strip leg = leg \<and>
         (normalize_whitespace leg = leg \<longleftrightarrow> single_spaced leg) \<and>
         (2 \<le> length buffer \<longrightarrow> normalize_whitespace leg \<noteq> leg)"
proof -
  let ?ls = "text_lines (markup_text unescape html)"
  have buf: "legend_lines (scan_lines lower ?ls) = buffer"
    using scan_legend_takeWhile[of scan_start lower ?ls] assms(1)
    by (simp add: scan_lines_def scan_start_def)
  have leg: "leg = join [0x0A, 0x0A] buffer"
    using assms(2) buf by (simp add: extract_text_sections_def Let_def)
  have lines: "\<forall>l\<in>set buffer. l \<noteq> [] \<and> \<not> isspace (hd l) \<and> \<not> isspace (last l)"
    using scan_legend_subset[of lower ?ls] text_lines_stripped buf by blast
  have s: "strip leg = leg"
  proof (cases "buffer = []")
    case True
    with leg show ?thesis by (simp add: strip_fixed_iff)
  next
    case False
    with lines have "join [0x0A, 0x0A] buffer \<noteq> [] \<and>
        hd (join [0x0A, 0x0A] buffer) = hd (hd buffer) \<and>
        last (join [0x0A, 0x0A] buffer) = last (last buffer)"
      by (intro join_hd_last) auto
    with False lines leg show ?thesis by (simp add: strip_fixed_iff)
  qed
  have "normalize_whitespace leg = re_sub rx_spaces [0x20] (strip leg)"
    by (simp add: normalize_whitespace_def str_def)
  with s have n: "normalize_whitespace leg = leg \<longleftrightarrow> single_spaced leg"
    by (simp add: re_sub_spaces_fixed)
  have "2 \<le> length buffer \<longrightarrow> \<not> single_spaced leg"
    using join_two_lines[of buffer] blank_line_not_single_spaced leg by metis
  with leg s n show ?thesis by blast
qed

lemmas str_eval = str_def strip_def lstrip_def rstrip_def isspace_def is_linebreak_def
  splitlines_def startswith_def
lemmas rx_eval = rx_br_def rx_block_close_def rx_block_open_def rx_inline_def rx_tag_def
  rx_spaces_def rx_plus_def lit_def ci_def ci_str_def lit_str_def not_gt_def re_sub.simps replace.simps
lemmas marker_eval = input_marker_def output_marker_def marker_def lower_basic_def lower_cp_def
  word_vhod_def word_vyhod_def word_dan_def

lemma lines_two_sections:
  "text_lines (markup_text unescape_plain
     (str ''Sum<br>Input data:<br>1 line.<br>Output data:<br>2 lines.'')) =
   [str ''Sum'', str ''Input data:'', str ''1 line.'', str ''Output data:'', str ''2 lines.'']"
  by (simp add: text_lines_def markup_text_def unescape_plain_def str_eval rx_eval)

lemma lines_output_word:
  "text_lines (markup_text unescape_plain
     (str ''Sum<br>Input data:<br>1 line.<br>Output data:<br>Output x'')) =
   [str ''Sum'', str ''Input data:'', str ''1 line.'', str ''Output data:'', str ''Output x'']"
  by (simp add: text_lines_def markup_text_def unescape_plain_def str_eval rx_eval)

lemma lines_hello_world:
  "text_lines (markup_text unescape_plain (str ''Hello<br>World'')) = [str ''Hello'', str ''World'']"
  by (simp add: text_lines_def markup_text_def unescape_plain_def str_eval rx_eval)

lemma lines_sum_of_two:
  "text_lines (markup_text unescape_plain (str ''<p>Sum of two</p>'')) = [str ''Sum of two'']"
  by (simp add: text_lines_def markup_text_def unescape_plain_def str_eval rx_eval)

theorem sections_between_markers_witness:
  "extract_text_sections unescape_plain lower_basic
     (str ''Sum<br>Input data:<br>1 line.<br>Output data:<br>2 lines.'') =
   (str ''Sum'', str ''1 line.'', str ''2 lines.'')"
proof -
  have "extract_text_sections unescape_plain lower_basic
     (str ''Sum<br>Input data:<br>1 line.<br>Output data:<br>2 lines.'') =
     (join [0x0A, 0x0A] [str ''Sum''], join [0x0A] [str ''1 line.''], join [0x0A] [str ''2 lines.''])"
    by (rule sections_between_markers[where mi = "str ''Input data:''" and mo = "str ''Output data:''"])
       (simp_all add: lines_two_sections, simp_all add: marker_eval str_eval)
  then show ?thesis by simp
qed

theorem sections_between_markers_counterexample:
  "extract_text_sections unescape_plain lower_basic
     (str ''Sum<br>Input data:<br>1 line.<br>Output data:<br>Output x'') =
   (str ''Sum'', str ''1 line.'', no_output_text) \<and> no_output_text \<noteq> str ''Output x''"
  unfolding extract_text_sections_def lines_output_word
  by (simp add: scan_lines_def scan_line_def scan_start_def lower_basic_def lower_cp_def
      word_vhod_def word_vyhod_def word_dan_def str_eval no_output_text_def)

theorem legend_joined_placeholders_witness:
  "text_lines (markup_text unescape_plain (str ''Hello<br>World'')) = [str ''Hello'', str ''World''] \<and>
   \<not> marker lower_basic (str ''Hello'') \<and> \<not> marker lower_basic (str ''World'') \<and>
   extract_text_sections unescape_plain lower_basic (str ''Hello<br>World'') =
     (str ''Hello'' @ [0x0A, 0x0A] @ str ''World'', no_input_text, no_output_text)"
proof -
  let ?ls = "text_lines (markup_text unescape_plain (str ''Hello<br>World''))"
  have nm: "\<forall>l\<in>set ?ls. \<not> input_marker lower_basic l \<and> \<not> output_marker lower_basic l"
    unfolding lines_hello_world by (simp add: marker_eval str_eval)
  obtain leg inp outp where
    e: "extract_text_sections unescape_plain lower_basic (str ''Hello<br>World'') = (leg, inp, outp)"
    by (cases "extract_text_sections unescape_plain lower_basic (str ''Hello<br>World'')") auto
  from legend_joined_placeholders[OF e refl] nm
  have "leg = join [0x0A, 0x0A] (takeWhile (\<lambda>l. \<not> marker lower_basic l) ?ls)"
    and "inp = no_input_text" and "outp = no_output_text"
    by auto
  moreover have "takeWhile (\<lambda>l. \<not> marker lower_basic l) ?ls = [str ''Hello'', str ''World'']"
    unfolding lines_hello_world by (simp add: marker_eval str_eval)
  moreover have "\<not> marker lower_basic (str ''Hello'') \<and> \<not> marker lower_basic (str ''World'')"
    by (simp add: marker_eval str_eval)
  ultimately show ?thesis using e lines_hello_world by simp
qed

lemma lines_one_two:
  "text_lines (markup_text unescape_plain (str ''One<br>Two'')) = [str ''One'', str ''Two'']"
  by (simp add: text_lines_def markup_text_def unescape_plain_def str_eval rx_eval)

theorem legend_normalization_witness:
  "takeWhile (\<lambda>l. \<not> marker lower_basic l)
     (text_lines (markup_text unescape_plain (str ''<p>Sum of two</p>''))) = [str ''Sum of two''] \<and>
   single_spaced (str ''Sum of two'') \<and>
   normalize_whitespace (fst (extract_text_sections unescape_plain lower_basic (str ''<p>Sum of two</p>''))) =
     str ''Sum of two'' \<and>
   takeWhile (\<lambda>l. \<not> marker lower_basic l)
     (text_lines (markup_text unescape_plain (str ''One<br>Two''))) = [str ''One'', str ''Two''] \<and>
   fst (extract_text_sections unescape_plain lower_basic (str ''One<br>Two'')) =
     str ''One'' @ [0x0A, 0x0A] @ str ''Two'' \<and>
   normalize_whitespace (fst (extract_text_sections unescape_plain lower_basic (str ''One<br>Two''))) \<noteq>
     fst (extract_text_sections unescape_plain lower_basic (str ''One<br>Two''))"
proof -
  have b1: "takeWhile (\<lambda>l. \<not> marker lower_basic l)
     (text_lines (markup_text unescape_plain (str ''<p>Sum of two</p>''))) = [str ''Sum of two'']"
    unfolding lines_sum_of_two by (simp add: marker_eval str_eval)
  have sp: "single_spaced (str ''Sum of two'')"
    by (simp add: str_def isspace_def)
  note t = legend_normalization[OF b1[symmetric] refl]
  from t have e: "fst (extract_text_sections unescape_plain lower_basic (str ''<p>Sum of two</p>'')) =
      str ''Sum of two''"
    by simp
  from t have "normalize_whitespace (fst (extract_text_sections unescape_plain lower_basic
        (str ''<p>Sum of two</p>''))) =
      fst (extract_text_sections unescape_plain lower_basic (str ''<p>Sum of two</p>'')) \<longleftrightarrow>
      single_spaced (fst (extract_text_sections unescape_plain lower_basic (str ''<p>Sum of two</p>'')))"
    by blast
  then have "normalize_whitespace (str ''Sum of two'') = str ''Sum of two'' \<longleftrightarrow>
      single_spaced (str ''Sum of two'')"
    by (simp only: e)
  with sp have "normalize_whitespace (str ''Sum of two'') = str ''Sum of two''" by blast
  then have 1: "normalize_whitespace (fst (extract_text_sections unescape_plain lower_basic
      (str ''<p>Sum of two</p>''))) = str ''Sum of two''"
    by (simp only: e)
  have b2: "takeWhile (\<lambda>l. \<not> marker lower_basic l)
     (text_lines (markup_text unescape_plain (str ''One<br>Two''))) = [str ''One'', str ''Two'']"
    unfolding lines_one_two by (simp add: marker_eval str_eval)
  note u = legend_normalization[OF b2[symmetric] refl]
  from u have 2: "fst (extract_text_sections unescape_plain lower_basic (str ''One<br>Two'')) =
      str ''One'' @ [0x0A, 0x0A] @ str ''Two''"
    by simp
  from u have "2 \<le> length [str ''One'', str ''Two''] \<longrightarrow>
      normalize_whitespace (fst (extract_text_sections unescape_plain lower_basic (str ''One<br>Two''))) \<noteq>
      fst (extract_text_sections unescape_plain lower_basic (str ''One<br>Two''))"
    by blast
  then have 3: "normalize_whitespace (fst (extract_text_sections unescape_plain lower_basic (str ''One<br>Two''))) \<noteq>
     fst (extract_text_sections unescape_plain lower_basic (str ''One<br>Two''))"
    by simp
  from b1 sp 1 b2 2 3 show ?thesis by blast
qed

theorem legend_normalization_counterexample:
  "normalize_whitespace (fst (extract_text_sections unescape_plain lower_basic (str ''Hello<br>World''))) \<noteq>
   fst (extract_text_sections unescape_plain lower_basic (str ''Hello<br>World''))"
proof -
  have h: "normalize_whitespace (fst (extract_text_sections unescape_plain lower_basic (str ''Hello<br>World''))) =
     str ''Hello World'' \<and>
   fst (extract_text_sections unescape_plain lower_basic (str ''Hello<br>World'')) =
     str ''Hello'' @ [0x0A, 0x0A] @ str ''World''"
    unfolding extract_text_sections_def lines_hello_world
    by (simp add: scan_lines_def scan_line_def scan_start_def lower_basic_def lower_cp_def
      word_vhod_def word_vyhod_def word_dan_def str_eval normalize_whitespace_def rx_eval)
  show ?thesis
    by (subst conjunct1[OF h], subst conjunct2[OF h]) (simp add: str_def)
qed

section \<open>Properties of the export reader and the checker selection\<close>

lemma collect_tests_index:
  "map index (collect_tests k tcs) =
     map fst (filter (\<lambda>p. complete_test (snd p)) (enumerate_from k tcs))"
  by (induction tcs arbitrary: k) (auto simp: complete_test_def split: option.splits)

lemma collect_tests_length:
  "length (collect_tests k tcs) = length (filter complete_test tcs)"
  by (induction tcs arbitrary: k) (auto simp: complete_test_def split: option.splits)

lemma collect_tests_bounds:
  "t \<in> set (collect_tests k tcs) \<Longrightarrow> k \<le> index t \<and> index t < k + int (length tcs)"
proof (induction tcs arbitrary: k)
  case Nil
  then show ?case by simp
next
  case (Cons tc tcs)
  then show ?case by (fastforce split: option.splits)
qed

lemma collect_tests_increasing: "sorted_wrt (<) (map index (collect_tests k tcs))"
proof (induction tcs arbitrary: k)
  case Nil
  then show ?case by simp
next
  case (Cons tc tcs)
  have "\<forall>t\<in>set (collect_tests (k + 1) tcs). k < index t"
    using collect_tests_bounds[of _ "k + 1" tcs] by fastforce
  with Cons show ?case by (auto split: option.splits)
qed

lemma enumerate_from_all:
  "map fst (enumerate_from k xs) = map (\<lambda>j. k + int j) [0..<length xs]"
proof (induction xs arbitrary: k)
  case Nil
  then show ?case by simp
next
  case (Cons x xs)
  have "[0..<length (x # xs)] = 0 # map Suc [0..<length xs]"
    by (simp add: upt_conv_Cons map_Suc_upt del: upt_Suc)
  with Cons[of "k + 1"] show ?case by (simp add: comp_def add.assoc del: upt_Suc)
qed

text \<open>
  Claim C2, as the code has it. A test entry without an input or an expected-output
  payload is left out and nothing is raised. The index of a produced test case is the
  1-based position of its entry among all the test entries of the question, so the
  indices increase strictly in source order; an entry that is left out keeps its slot,
  and the indices are contiguous from 1 when no entry is left out.
\<close>

theorem test_indices_are_positions:
  "tcs = findall2 (str ''testcases'') (str ''testcase'') question \<Longrightarrow>
   map index (question_tests question) =
     map fst (filter (\<lambda>p. complete_test (snd p)) (enumerate_from 1 tcs)) \<and>
   length (question_tests question) = length (filter complete_test tcs) \<and>
   sorted_wrt (<) (map index (question_tests question)) \<and>
   (list_all complete_test tcs \<longrightarrow>
      map index (question_tests question) = map (\<lambda>j. 1 + int j) [0..<length tcs])"
proof -
  assume t: "tcs = findall2 (str ''testcases'') (str ''testcase'') question"
  have all: "list_all complete_test tcs \<Longrightarrow>
      filter (\<lambda>p. complete_test (snd p)) (enumerate_from k tcs) = enumerate_from k tcs" for k
    by (induction tcs arbitrary: k) auto
  have a: "map index (question_tests question) =
      map fst (filter (\<lambda>p. complete_test (snd p)) (enumerate_from 1 tcs))"
    using t by (simp add: question_tests_def collect_tests_index)
  have b: "length (question_tests question) = length (filter complete_test tcs)"
    using t by (simp add: question_tests_def collect_tests_length)
  have c: "sorted_wrt (<) (map index (question_tests question))"
    unfolding question_tests_def by (rule collect_tests_increasing)
  have d: "list_all complete_test tcs \<longrightarrow>
      map index (question_tests question) = map (\<lambda>j. 1 + int j) [0..<length tcs]"
    using a all[of 1] by (simp add: enumerate_from_all)
  from a b c d show ?thesis by blast
qed

lemma coderunner_task_error:
  "coderunner_task unescape lower q = Inl e \<longleftrightarrow> lacks_field q \<and> e = Malformed_question"
  by (auto simp: coderunner_task_def lacks_field_def Let_def split: option.splits prod.splits)

lemma coderunner_task_ok:
  "\<not> lacks_field q \<Longrightarrow> \<exists>t. coderunner_task unescape lower q = Inr t"
  using coderunner_task_error[of unescape lower q]
  by (cases "coderunner_task unescape lower q") auto

lemma scan_questions_error:
  "\<exists>q\<in>set qs. is_coderunner q \<and> lacks_field q \<Longrightarrow>
   scan_questions unescape lower cn acc qs = Inl Malformed_question"
proof (induction qs arbitrary: cn acc)
  case Nil
  then show ?case by simp
next
  case (Cons q qs)
  show ?case
  proof (cases "is_coderunner q")
    case False
    with Cons show ?thesis by (auto simp: is_coderunner_def Let_def)
  next
    case True
    then have c: "attr_get q (str ''type'') [] \<noteq> str ''category''"
      by (simp add: is_coderunner_def str_def)
    show ?thesis
    proof (cases "lacks_field q")
      case l: True
      then have "coderunner_task unescape lower q = Inl Malformed_question"
        by (simp add: coderunner_task_error)
      with True c show ?thesis by (simp add: is_coderunner_def Let_def)
    next
      case l: False
      then obtain t where t: "coderunner_task unescape lower q = Inr t"
        using coderunner_task_ok by blast
      from l True Cons.prems have "\<exists>q\<in>set qs. is_coderunner q \<and> lacks_field q" by auto
      with Cons.IH t True c show ?thesis by (simp add: is_coderunner_def Let_def)
    qed
  qed
qed

lemma scan_questions_ok:
  "\<not> (\<exists>q\<in>set qs. is_coderunner q \<and> lacks_field q) \<Longrightarrow>
   \<exists>cn' ts. scan_questions unescape lower cn acc qs = Inr (cn', acc @ ts) \<and>
     map Inr ts = map (coderunner_task unescape lower) (filter is_coderunner qs)"
proof (induction qs arbitrary: cn acc)
  case Nil
  then show ?case by simp
next
  case (Cons q qs)
  then have rest: "\<not> (\<exists>q\<in>set qs. is_coderunner q \<and> lacks_field q)" by simp
  show ?case
  proof (cases "is_coderunner q")
    case False
    with Cons.IH[OF rest] show ?thesis by (auto simp: is_coderunner_def Let_def)
  next
    case True
    then have c: "attr_get q (str ''type'') [] \<noteq> str ''category''"
      by (simp add: is_coderunner_def str_def)
    from True Cons.prems have "\<not> lacks_field q" by simp
    then obtain t where t: "coderunner_task unescape lower q = Inr t"
      using coderunner_task_ok by blast
    from Cons.IH[OF rest, of cn "acc @ [t]"] obtain cn' ts where
      r: "scan_questions unescape lower cn (acc @ [t]) qs = Inr (cn', (acc @ [t]) @ ts)"
      and m: "map Inr ts = map (coderunner_task unescape lower) (filter is_coderunner qs)"
      by blast
    have "scan_questions unescape lower cn acc (q # qs) = Inr (cn', acc @ (t # ts))"
      using r t True c by (simp add: is_coderunner_def Let_def)
    moreover have "map Inr (t # ts) =
        map (coderunner_task unescape lower) (filter is_coderunner (q # qs))"
      using m t True by simp
    ultimately show ?thesis by blast
  qed
qed

text \<open>
  Claim C6. The export reader raises its error exactly when some \<open>coderunner\<close> question
  has no name text element, no body text element or no answer element; otherwise it
  returns as many tasks as there are \<open>coderunner\<close> questions.
\<close>

theorem parse_error_iff_field_missing:
  "qs = child_elems (str ''question'') root \<Longrightarrow>
   ((\<exists>e. parse_moodle_xml unescape lower stem root = Inl e) \<longleftrightarrow>
      (\<exists>q\<in>set qs. is_coderunner q \<and> lacks_field q)) \<and>
   (\<forall>contest ts. parse_moodle_xml unescape lower stem root = Inr (contest, ts) \<longrightarrow>
      length ts = length (filter is_coderunner qs))"
proof (cases "\<exists>q\<in>set qs. is_coderunner q \<and> lacks_field q")
  case True
  assume "qs = child_elems (str ''question'') root"
  with True scan_questions_error[of qs unescape lower "[]" "[]"] show ?thesis
    by (simp add: parse_moodle_xml_def)
next
  case False
  assume q: "qs = child_elems (str ''question'') root"
  from scan_questions_ok[OF False, of unescape lower "[]" "[]"] obtain cn' ts where
    r: "scan_questions unescape lower [] [] qs = Inr (cn', ts)"
    and m: "map Inr ts = map (coderunner_task unescape lower) (filter is_coderunner qs)"
    by auto
  from m have "length ts = length (filter is_coderunner qs)"
    by (metis length_map)
  with r q False show ?thesis
    by (auto simp: parse_moodle_xml_def Let_def)
qed

lemma parse_ok_tasks:
  assumes "parse_moodle_xml unescape lower stem root = Inr (contest, ts)"
  shows "map Inr ts =
     map (coderunner_task unescape lower) (filter is_coderunner (child_elems (str ''question'') root))"
proof -
  let ?qs = "child_elems (str ''question'') root"
  have ok: "\<not> (\<exists>q\<in>set ?qs. is_coderunner q \<and> lacks_field q)"
  proof
    assume "\<exists>q\<in>set ?qs. is_coderunner q \<and> lacks_field q"
    then have "scan_questions unescape lower [] [] ?qs = Inl Malformed_question"
      by (rule scan_questions_error)
    with assms show False by (simp add: parse_moodle_xml_def)
  qed
  from scan_questions_ok[OF ok, of unescape lower "[]" "[]"] assms show ?thesis
    by (auto simp: parse_moodle_xml_def Let_def)
qed

lemma star_full: "[] \<in> set (rx_ends (Star p) s) \<longleftrightarrow> list_all p s"
  by (induction s) auto

lemma plus_full: "[] \<in> set (rx_ends (rx_plus p) s) \<longleftrightarrow> s \<noteq> [] \<and> list_all p s"
  by (cases s) (auto simp: rx_plus_def star_full)

lemma is_integer_token_iff: "is_integer_token isdecimal token \<longleftrightarrow> signed_digits isdecimal token"
proof (cases token)
  case Nil
  then show ?thesis
    by (simp add: is_integer_token_def re_fullmatch_def rx_integer_def signed_digits_def plus_full)
next
  case (Cons c ds)
  then show ?thesis
    by (auto simp: is_integer_token_def re_fullmatch_def rx_integer_def signed_digits_def plus_full)
qed

lemma split_ws1_hd:
  assumes "dropWhile isspace s \<noteq> []"
  shows "\<exists>r. split_ws1 s = takeWhile (\<lambda>c. \<not> isspace c) (dropWhile isspace s) # r"
proof -
  let ?f = "takeWhile (\<lambda>c. \<not> isspace c) (dropWhile isspace s)"
  let ?rest = "dropWhile isspace (dropWhile (\<lambda>c. \<not> isspace c) (dropWhile isspace s))"
  have eq: "split_ws1 s = (if ?rest = [] then [?f] else [?f, ?rest])"
    unfolding split_ws1_def Let_def using assms by (simp only: if_False)
  show ?thesis
  proof (cases "?rest = []")
    case True
    from True eq have "split_ws1 s = [?f]" by (simp only: simp_thms if_True)
    then show ?thesis by blast
  next
    case False
    from False eq have "split_ws1 s = [?f, ?rest]" by (simp only: simp_thms if_False)
    then show ?thesis by blast
  qed
qed

lemma extract_first_word_eq: "extract_first_word v = first_token v"
proof (cases "dropWhile isspace v = []")
  case True
  have "extract_first_word v = []"
    unfolding extract_first_word_def lstrip_def Let_def by (simp only: True) simp
  moreover have "first_token v = []"
    unfolding first_token_def by (simp only: True takeWhile.simps)
  ultimately show ?thesis by (simp only:)
next
  case False
  have i: "dropWhile isspace (dropWhile isspace v) = dropWhile isspace v"
    by (rule dropWhile_idem)
  from False have "dropWhile isspace (dropWhile isspace v) \<noteq> []" by (simp only: i simp_thms)
  from split_ws1_hd[OF this] obtain r where
    r: "split_ws1 (dropWhile isspace v) = takeWhile (\<lambda>c. \<not> isspace c) (dropWhile isspace v) # r"
    by (auto simp only: i)
  have "extract_first_word v = takeWhile (\<lambda>c. \<not> isspace c) (dropWhile isspace v)"
    unfolding extract_first_word_def lstrip_def Let_def using False
    by (simp only: r simp_thms if_False list.case)
  then show ?thesis by (simp only: first_token_def)
qed

text \<open>
  Claim C4. The checker depends on the expected output of the first test case only: the
  line checker without tests or without a first token, the integer checker when the
  token is digits with an optional sign, the floating-point checker when \<open>float\<close> accepts
  the token and it holds a digit and one of \<open>.\<close>, \<open>e\<close>, \<open>E\<close>, and the line checker
  otherwise.
\<close>

theorem checker_from_first_token:
  "select_checker isdecimal isdigit float_ok task =
     (case tests task of
        [] \<Rightarrow> str ''std::lcmp.cpp''
      | first_test # others \<Rightarrow>
          if first_token (output_data first_test) = [] then str ''std::lcmp.cpp''
          else if signed_digits isdecimal (first_token (output_data first_test))
            then str ''std::ncmp.cpp''
          else if float_ok (first_token (output_data first_test)) \<and>
                  list_ex isdigit (first_token (output_data first_test)) \<and>
                  list_ex (\<lambda>ch. ch = 0x2E \<or> ch = 0x65 \<or> ch = 0x45) (first_token (output_data first_test))
            then str ''std::rcmp9.cpp''
          else str ''std::lcmp.cpp'')"
proof -
  have "(\<lambda>ch. ch \<in> set (str ''.eE'')) = (\<lambda>ch. ch = 0x2E \<or> ch = 0x65 \<or> ch = 0x45)"
    by (auto simp: str_def)
  then show ?thesis
    by (simp add: select_checker_def extract_first_word_eq is_integer_token_iff is_float_token_def
        Let_def split: list.splits)
qed

lemmas xml_eval = text_elem_def testcase_both_def testcase_no_expected_def question_of_def
  question_two_tests_def question_gap_def question_unnamed_def question_no_answer_def quiz_def
  child_elems_def findall2_def find1_def find2_def attr_get_def or_str_def str_def
  is_coderunner_def lacks_field_def complete_test_def

theorem test_indices_are_positions_witness:
  "list_all complete_test (findall2 (str ''testcases'') (str ''testcase'') question_two_tests) \<and>
   map index (question_tests question_two_tests) = [1, 2]"
proof -
  have c: "list_all complete_test (findall2 (str ''testcases'') (str ''testcase'') question_two_tests)"
    by (simp add: xml_eval)
  have l: "length (findall2 (str ''testcases'') (str ''testcase'') question_two_tests) = 2"
    by (simp add: xml_eval)
  from test_indices_are_positions[OF refl, of question_two_tests] c
  have "map index (question_tests question_two_tests) =
      map (\<lambda>j. 1 + int j) [0..<length (findall2 (str ''testcases'') (str ''testcase'') question_two_tests)]"
    by blast
  with c l show ?thesis by (simp add: upt_rec)
qed

theorem test_indices_are_positions_counterexample:
  "map index (question_tests question_gap) = [2] \<and>
   length (findall2 (str ''testcases'') (str ''testcase'') question_gap) = 2"
  by (simp add: question_tests_def xml_eval)

theorem parse_error_iff_field_missing_witness:
  "(\<exists>e. parse_moodle_xml unescape_plain lower_basic (str ''export'')
          (quiz [question_two_tests, question_no_answer]) = Inl e) \<and>
   (\<exists>contest ts. parse_moodle_xml unescape_plain lower_basic (str ''export'')
          (quiz [question_two_tests, question_gap]) = Inr (contest, ts) \<and> length ts = 2)"
proof -
  let ?bad = "quiz [question_two_tests, question_no_answer]"
  let ?good = "quiz [question_two_tests, question_gap]"
  have b: "\<exists>q\<in>set (child_elems (str ''question'') ?bad). is_coderunner q \<and> lacks_field q"
    by (simp add: xml_eval)
  have g: "\<not> (\<exists>q\<in>set (child_elems (str ''question'') ?good). is_coderunner q \<and> lacks_field q)"
    by (simp add: xml_eval)
  have n: "length (filter is_coderunner (child_elems (str ''question'') ?good)) = 2"
    by (simp add: xml_eval)
  from parse_error_iff_field_missing[OF refl, of unescape_plain lower_basic "str ''export''" ?bad] b
  have 1: "\<exists>e. parse_moodle_xml unescape_plain lower_basic (str ''export'') ?bad = Inl e"
    by blast
  obtain r where r: "parse_moodle_xml unescape_plain lower_basic (str ''export'') ?good = r"
    by simp
  from parse_error_iff_field_missing[OF refl, of unescape_plain lower_basic "str ''export''" ?good] g n r
  have 2: "\<exists>contest ts. r = Inr (contest, ts) \<and> length ts = 2"
    by (cases r) auto
  from 1 2 r show ?thesis by simp
qed

text \<open>
  Claim C10, as the code has it. For a question whose name text element (the \<open>text\<close>
  child of a \<open>name\<close> child) is present and has no text, the error is raised exactly when
  the body text element or the answer element is absent; when neither is, the task is
  produced with the name \<open>Unnamed task\<close>, also as a member of the task list of the whole
  export. For every question the error is raised exactly when the name text element,
  the body text element or the answer element is absent, so a \<open>name\<close> element without
  a \<open>text\<close> child raises it.
\<close>

theorem empty_name_gives_fallback:
  assumes n: "find2 (str ''name'') (str ''text'') q = Some name_node"
    and t: "node_text name_node = None \<or> node_text name_node = Some []"
  shows "(coderunner_task unescape lower q = Inl Malformed_question \<longleftrightarrow>
            find2 (str ''questiontext'') (str ''text'') q = None \<or> find1 (str ''answer'') q = None) \<and>
         (\<not> lacks_field q \<longrightarrow>
            (\<exists>task. coderunner_task unescape lower q = Inr task \<and> name task = str ''Unnamed task'')) \<and>
         (\<forall>stem root contest ts i.
            parse_moodle_xml unescape lower stem root = Inr (contest, ts) \<and> i < length ts \<and>
            filter is_coderunner (child_elems (str ''question'') root) ! i = q \<longrightarrow>
            name (ts ! i) = str ''Unnamed task'') \<and>
         (\<forall>q'. coderunner_task unescape lower q' = Inl Malformed_question \<longleftrightarrow>
            find2 (str ''name'') (str ''text'') q' = None \<or>
            find2 (str ''questiontext'') (str ''text'') q' = None \<or>
            find1 (str ''answer'') q' = None)"
proof -
  have s: "strip (str ''Unnamed task'') = str ''Unnamed task''"
    by (simp add: str_def strip_def lstrip_def rstrip_def isspace_def)
  from t have o: "or_str (node_text name_node) (str ''Unnamed task'') = str ''Unnamed task''"
    by (auto simp: or_str_def)
  have a: "coderunner_task unescape lower q = Inl Malformed_question \<longleftrightarrow>
      find2 (str ''questiontext'') (str ''text'') q = None \<or> find1 (str ''answer'') q = None"
    using n by (simp add: coderunner_task_error lacks_field_def)
  have b: "coderunner_task unescape lower q = Inr task \<Longrightarrow> name task = str ''Unnamed task''" for task
    using n s o
    by (auto simp: coderunner_task_def Let_def split: option.splits prod.splits)
  have c: "\<not> lacks_field q \<longrightarrow>
      (\<exists>task. coderunner_task unescape lower q = Inr task \<and> name task = str ''Unnamed task'')"
    using coderunner_task_ok[of q unescape lower] b by blast
  have d: "name (ts ! i) = str ''Unnamed task''"
    if p: "parse_moodle_xml unescape lower stem root = Inr (contest, ts)" and i: "i < length ts"
      and q: "filter is_coderunner (child_elems (str ''question'') root) ! i = q"
    for stem root contest ts i
  proof -
    let ?qs = "filter is_coderunner (child_elems (str ''question'') root)"
    have m: "map Inr ts = map (coderunner_task unescape lower) ?qs"
      using p by (rule parse_ok_tasks)
    then have "length ts = length ?qs" by (metis length_map)
    with i m have "Inr (ts ! i) = coderunner_task unescape lower (?qs ! i)"
      by (metis nth_map)
    with q b show ?thesis by simp
  qed
  have e: "\<forall>q'. coderunner_task unescape lower q' = Inl Malformed_question \<longleftrightarrow>
      find2 (str ''name'') (str ''text'') q' = None \<or>
      find2 (str ''questiontext'') (str ''text'') q' = None \<or>
      find1 (str ''answer'') q' = None"
    by (simp add: coderunner_task_error lacks_field_def)
  from a c d e show ?thesis by blast
qed

theorem empty_name_gives_fallback_witness:
  "\<not> lacks_field question_unnamed \<and>
   find2 (str ''name'') (str ''text'') question_unnamed = Some (Element (str ''text'') [] None []) \<and>
   (\<exists>task. coderunner_task unescape_plain lower_basic question_unnamed = Inr task \<and>
      name task = str ''Unnamed task'')"
proof -
  have f: "find2 (str ''name'') (str ''text'') question_unnamed = Some (Element (str ''text'') [] None [])"
    by (simp add: xml_eval)
  have l: "\<not> lacks_field question_unnamed"
    by (simp add: xml_eval)
  from empty_name_gives_fallback[OF f, of unescape_plain lower_basic] l f show ?thesis
    by simp
qed

theorem empty_name_gives_fallback_counterexample:
  "find1 (str ''name'') question_bare_name = Some (Element (str ''name'') [] None []) \<and>
   find2 (str ''questiontext'') (str ''text'') question_bare_name =
     Some (Element (str ''text'') [] (Some (str ''Compute a+b.'')) []) \<and>
   find1 (str ''answer'') question_bare_name = Some (Element (str ''answer'') [] (Some (str ''print(3)'')) []) \<and>
   coderunner_task unescape_plain lower_basic question_bare_name = Inl Malformed_question \<and>
   parse_moodle_xml unescape_plain lower_basic (str ''export'') (quiz [question_bare_name]) =
     Inl Malformed_question"
  by (simp add: parse_moodle_xml_def coderunner_task_def question_bare_name_def xml_eval)

lemmas checker_eval = task_expecting_def first_token_def signed_digits_def ascii_digit_def
  ascii_float_ok_def rx_ascii_float_def re_fullmatch_def rx_plus_def lit_str_def lit_def
  isspace_def str_def

theorem checker_from_first_token_witness:
  "select_checker ascii_digit ascii_digit ascii_float_ok
     (task_expecting (str ''42'') \<lparr>tests := []\<rparr>) = str ''std::lcmp.cpp'' \<and>
   select_checker ascii_digit ascii_digit ascii_float_ok (task_expecting (str ''42 7'')) =
     str ''std::ncmp.cpp'' \<and>
   select_checker ascii_digit ascii_digit ascii_float_ok (task_expecting (str ''3.14'')) =
     str ''std::rcmp9.cpp'' \<and>
   select_checker ascii_digit ascii_digit ascii_float_ok (task_expecting (str ''hello'')) =
     str ''std::lcmp.cpp''"
proof -
  have 1: "select_checker ascii_digit ascii_digit ascii_float_ok
     (task_expecting (str ''42'') \<lparr>tests := []\<rparr>) = str ''std::lcmp.cpp''"
    using checker_from_first_token[of ascii_digit ascii_digit ascii_float_ok
        "task_expecting (str ''42'') \<lparr>tests := []\<rparr>"]
    by (simp add: task_expecting_def)
  have 2: "select_checker ascii_digit ascii_digit ascii_float_ok (task_expecting (str ''42 7'')) =
     str ''std::ncmp.cpp''"
    using checker_from_first_token[of ascii_digit ascii_digit ascii_float_ok
        "task_expecting (str ''42 7'')"]
    by (simp add: checker_eval)
  have 3: "select_checker ascii_digit ascii_digit ascii_float_ok (task_expecting (str ''3.14'')) =
     str ''std::rcmp9.cpp''"
    using checker_from_first_token[of ascii_digit ascii_digit ascii_float_ok
        "task_expecting (str ''3.14'')"]
    by (simp add: checker_eval)
  have 4: "select_checker ascii_digit ascii_digit ascii_float_ok (task_expecting (str ''hello'')) =
     str ''std::lcmp.cpp''"
    using checker_from_first_token[of ascii_digit ascii_digit ascii_float_ok
        "task_expecting (str ''hello'')"]
    by (simp add: checker_eval)
  from 1 2 3 4 show ?thesis by blast
qed

section \<open>Properties of the remote client\<close>

lemma sort_items: "distinct (map fst xs) \<Longrightarrow>
  sort_key (\<lambda>item. (fst item, snd item)) xs = sorted_list_of_set (set xs)"
proof -
  assume d: "distinct (map fst xs)"
  then have "distinct xs" by (simp add: distinct_map)
  then have "sorted_list_of_set (set xs) = sort xs"
    by (simp add: sorted_list_of_set_sort_remdups distinct_remdups_id)
  then show ?thesis by simp
qed

lemma dict_set_keys: "set (map fst (dict_set k v d)) = insert k (set (map fst d))"
proof (induction d)
  case Nil
  then show ?case by simp
next
  case (Cons a d)
  obtain k' v' where a: "a = (k', v')" by (cases a)
  show ?case
  proof (cases "k' = k")
    case True
    with a show ?thesis by simp
  next
    case False
    with a Cons show ?thesis by (simp add: insert_commute)
  qed
qed

lemma dict_set_distinct: "distinct (map fst d) \<Longrightarrow> distinct (map fst (dict_set k v d))"
proof (induction d)
  case Nil
  then show ?case by simp
next
  case (Cons a d)
  obtain k' v' where a: "a = (k', v')" by (cases a)
  from Cons a show ?case
    using dict_set_keys[of k v d] by auto
qed

lemma dict_set_fresh: "k \<notin> set (map fst d) \<Longrightarrow> dict_set k v d = d @ [(k, v)]"
  by (induction d) auto

text \<open>
  Claim C1. With the parameters of a request as a dictionary, the signed parameters are
  the stringified items together with the key and the time; the signature is the nonce
  followed by the digest of nonce, \<open>/\<close>, method, \<open>?\<close>, the signed items in
  lexicographic order of (name, value) written \<open>name=value\<close> and joined by \<open>&\<close>,
  \<open>#\<close> and the secret. It depends on the set of items only, not on their order in the
  dictionary. The signature is sent as one more parameter, and booleans are written
  \<open>true\<close> and \<open>false\<close>.
\<close>

theorem signature_formula:
  assumes "distinct (map fst params)"
    and "signed = stringify_items (dict_set (str ''time'') (PStr (str_of_int now))
                    (dict_set (str ''apiKey'') (PStr (api_key api)) params))"
    and "signature = rand @ sha512_hex (rand @ str ''/'' @ method_name @ str ''?'' @
             join (str ''&'') (map item_text (sorted_list_of_set (set signed))) @
             str ''#'' @ api_secret api)"
  shows "build_signature sha512_hex rand api method_name signed = signature \<and>
         (str ''apiSig'' \<notin> set (map fst params) \<longrightarrow>
            request_params sha512_hex rand now api method_name params = signed @ [(str ''apiSig'', signature)]) \<and>
         stringify_value (PBool True) = str ''true'' \<and>
         stringify_value (PBool False) = str ''false''"
proof -
  let ?d = "dict_set (str ''time'') (PStr (str_of_int now))
              (dict_set (str ''apiKey'') (PStr (api_key api)) params)"
  have keys: "map fst signed = map fst ?d"
    using assms(2) by (simp add: stringify_items_def comp_def)
  have "distinct (map fst ?d)"
    using assms(1) by (intro dict_set_distinct)
  with keys have "distinct (map fst signed)" by simp
  then have "sort_key (\<lambda>item. (fst item, snd item)) signed = sorted_list_of_set (set signed)"
    by (rule sort_items)
  moreover have "(\<lambda>(key, v). key @ str ''='' @ v) = item_text"
    by (auto simp: item_text_def fun_eq_iff)
  ultimately have sig: "build_signature sha512_hex rand api method_name signed = signature"
    using assms(3) by (simp add: build_signature_def Let_def)
  have map_eq: "stringify_items ?d = signed"
    using assms(2) by simp
  have req: "request_params sha512_hex rand now api method_name params =
      dict_set (str ''apiSig'') signature signed"
    using sig by (simp add: request_params_def Let_def map_eq)
  have fresh: "str ''apiSig'' \<notin> set (map fst signed)" if "str ''apiSig'' \<notin> set (map fst params)"
  proof -
    have "set (map fst signed) = insert (str ''time'') (insert (str ''apiKey'') (set (map fst params)))"
      unfolding keys by (simp only: dict_set_keys)
    moreover have "str ''apiSig'' \<noteq> str ''time''" "str ''apiSig'' \<noteq> str ''apiKey''"
      by (simp_all add: str_def)
    ultimately show ?thesis using that by simp
  qed
  have "str ''apiSig'' \<notin> set (map fst params) \<longrightarrow>
      request_params sha512_hex rand now api method_name params = signed @ [(str ''apiSig'', signature)]"
    using req fresh dict_set_fresh[of "str ''apiSig''" signed signature] by simp
  with sig show ?thesis
    by (simp add: stringify_value_def bool_word_def)
qed

theorem signature_formula_witness:
  "\<forall>sha512_hex.
     request_params sha512_hex (str ''a1b2c3'') 1700000000
       (new_api (str ''https://polygon.codeforces.com/api/'') (str ''key'') (str ''secret''))
       (str ''problem.updateInfo'')
       [(str ''problemId'', PInt 7), (str ''timeLimit'', PInt 2000), (str ''interactive'', PBool False)] =
     [(str ''problemId'', str ''7''), (str ''timeLimit'', str ''2000''),
      (str ''interactive'', str ''false''), (str ''apiKey'', str ''key''),
      (str ''time'', str ''1700000000''),
      (str ''apiSig'', str ''a1b2c3'' @ sha512_hex (str
         ''a1b2c3/problem.updateInfo?apiKey=key&interactive=false&problemId=7&time=1700000000&timeLimit=2000#secret''))]"
proof -
  have main: "request_params sha512_hex (str ''a1b2c3'') 1700000000
       (new_api (str ''https://polygon.codeforces.com/api/'') (str ''key'') (str ''secret''))
       (str ''problem.updateInfo'')
       [(str ''problemId'', PInt 7), (str ''timeLimit'', PInt 2000), (str ''interactive'', PBool False)] =
     [(str ''problemId'', str ''7''), (str ''timeLimit'', str ''2000''),
      (str ''interactive'', str ''false''), (str ''apiKey'', str ''key''),
      (str ''time'', str ''1700000000''),
      (str ''apiSig'', str ''a1b2c3'' @ sha512_hex (str
         ''a1b2c3/problem.updateInfo?apiKey=key&interactive=false&problemId=7&time=1700000000&timeLimit=2000#secret''))]"
    for sha512_hex :: "pystr \<Rightarrow> pystr"
  proof -
  let ?api = "new_api (str ''https://polygon.codeforces.com/api/'') (str ''key'') (str ''secret'')"
  let ?params = "[(str ''problemId'', PInt 7), (str ''timeLimit'', PInt 2000),
      (str ''interactive'', PBool False)]"
  let ?signed = "[(str ''problemId'', str ''7''), (str ''timeLimit'', str ''2000''),
      (str ''interactive'', str ''false''), (str ''apiKey'', str ''key''),
      (str ''time'', str ''1700000000'')]"
  have d: "distinct (map fst ?params)" by (simp add: str_def)
  have f: "str ''apiSig'' \<notin> set (map fst ?params)" by (simp add: str_def)
  have s: "?signed = stringify_items (dict_set (str ''time'') (PStr (str_of_int 1700000000))
                    (dict_set (str ''apiKey'') (PStr (api_key ?api)) ?params))"
    by (simp add: stringify_items_def new_api_def stringify_value_def bool_word_def str_of_int_def
        str_of_nat.simps str_def)
  have q: "join (str ''&'') (map item_text (sorted_list_of_set (set ?signed))) =
      str ''apiKey=key&interactive=false&problemId=7&time=1700000000&timeLimit=2000''"
    by (simp add: sorted_list_of_set_sort_remdups item_text_def str_def)
  from signature_formula[where rand = "str ''a1b2c3''" and sha512_hex = sha512_hex
      and method_name = "str ''problem.updateInfo''", OF d s refl] f
  have "request_params sha512_hex (str ''a1b2c3'') 1700000000 ?api (str ''problem.updateInfo'') ?params =
      ?signed @ [(str ''apiSig'', str ''a1b2c3'' @ sha512_hex (str ''a1b2c3'' @ str ''/'' @
        str ''problem.updateInfo'' @ str ''?'' @
        join (str ''&'') (map item_text (sorted_list_of_set (set ?signed))) @ str ''#'' @ api_secret ?api))]"
    by blast
    then show ?thesis
      unfolding q by (simp add: new_api_def str_def)
  qed
  then show ?thesis by blast
qed

lemma request_world:
  "request env w m p = (r, w') \<Longrightarrow>
   sent w' = sent w @ [(m, p)] \<and> calls w' = calls w + 1 \<and> clock w \<le> clock w' \<and>
   sleeps w' = sleeps w"
  by (auto simp: request_def Let_def split: sum.splits)

lemma sleep_world:
  "sent (sleep env w secs) = sent w \<and> calls (sleep env w secs) = calls w \<and>
   clock w + secs \<le> clock (sleep env w secs)"
  by (simp add: sleep_def)

lemma save_tests_sent:
  "save_tests env pid ts w = (r, w') \<Longrightarrow> \<exists>ext. sent w' = sent w @ ext"
proof (induction ts arbitrary: w)
  case Nil
  then show ?case by simp
next
  case (Cons t ts)
  obtain r1 w1 where q: "request env w (str ''problem.saveTest'') (test_params pid t) = (r1, w1)"
    by (cases "request env w (str ''problem.saveTest'') (test_params pid t)")
  from request_world[OF q] have s1: "sent w1 = sent w @ [(str ''problem.saveTest'', test_params pid t)]"
    by simp
  show ?case
  proof (cases r1)
    case (Inl e)
    with Cons.prems q s1 show ?thesis by auto
  next
    case (Inr x)
    with Cons.prems q have "save_tests env pid ts w1 = (r, w')" by simp
    from Cons.IH[OF this] s1 show ?thesis by auto
  qed
qed

lemma poll_packages_sent:
  "poll_packages env pid deadline w = (r, w') \<Longrightarrow> \<exists>ext. sent w' = sent w @ ext"
proof (induction env pid deadline w rule: poll_packages.induct)
  case (1 env pid deadline w)
  show ?case
  proof (cases "clock w < deadline")
    case False
    with "1.prems" show ?thesis by (simp add: poll_packages.simps)
  next
    case True
    obtain r1 w1 where
      q: "request env w (str ''problem.packages'') [(str ''problemId'', PInt pid)] = (r1, w1)"
      by (cases "request env w (str ''problem.packages'') [(str ''problemId'', PInt pid)]")
    from request_world[OF q] have s1: "\<exists>ext. sent w1 = sent w @ ext" by simp
    have s2: "sent (sleep env w1 2) = sent w1" by (simp add: sleep_world)
    have step: "poll_packages env pid deadline (sleep env w1 2) = (r, w') \<Longrightarrow>
        (r1 = Inr Null_result \<or> r1 = Inr (Object_list []) \<or>
         (\<exists>pkg pkgs. r1 = Inr (Object_list (pkg # pkgs)) \<and>
            state (latest_package pkg pkgs) \<noteq> Some (str ''READY'') \<and>
            state (latest_package pkg pkgs) \<noteq> Some (str ''FAILED''))) \<Longrightarrow>
        \<exists>ext. sent w' = sent (sleep env w1 2) @ ext"
      using "1.IH" True q by (auto simp: Let_def)
    from "1.prems" True q
    consider (stop) "w' = w1"
      | (go) "poll_packages env pid deadline (sleep env w1 2) = (r, w')"
          "r1 = Inr Null_result \<or> r1 = Inr (Object_list []) \<or>
           (\<exists>pkg pkgs. r1 = Inr (Object_list (pkg # pkgs)) \<and>
              state (latest_package pkg pkgs) \<noteq> Some (str ''READY'') \<and>
              state (latest_package pkg pkgs) \<noteq> Some (str ''FAILED''))"
      by (subst (asm) poll_packages.simps)
         (auto simp: Let_def split: sum.splits api_result.splits list.splits if_splits)
    then show ?thesis
    proof cases
      case stop
      with s1 show ?thesis by simp
    next
      case go
      from step[OF go] s1 s2 show ?thesis by auto
    qed
  qed
qed

lemma wait_for_package_sent:
  "wait_for_package env pid timeout w = (r, w') \<Longrightarrow> \<exists>ext. sent w' = sent w @ ext"
  unfolding wait_for_package_def by (rule poll_packages_sent)

lemma configure_problem_sent:
  assumes "configure_problem isdecimal isdigit float_ok env pid task w0 = (r, w')"
    and "reply env (calls w0) = Inr info"
  shows "\<exists>ext. sent w' =
           sent w0 @ [(str ''problem.updateInfo'', update_info_params pid),
                      (str ''problem.saveStatement'', statement_params pid task)] @ ext"
proof -
  have q1: "request env w0 (str ''problem.updateInfo'') (update_info_params pid) =
      (Inr info, snd (request env w0 (str ''problem.updateInfo'') (update_info_params pid)))"
    using assms(2) by (simp add: request_def Let_def)
  define w1 where "w1 = snd (request env w0 (str ''problem.updateInfo'') (update_info_params pid))"
  obtain r2 w2 where
    q2: "request env w1 (str ''problem.saveStatement'') (statement_params pid task) = (r2, w2)"
    by (cases "request env w1 (str ''problem.saveStatement'') (statement_params pid task)")
  have s1: "sent w1 = sent w0 @ [(str ''problem.updateInfo'', update_info_params pid)]"
    using request_world[OF q1] by (simp add: w1_def)
  have s2: "sent w2 = sent w0 @ [(str ''problem.updateInfo'', update_info_params pid),
      (str ''problem.saveStatement'', statement_params pid task)]"
    using request_world[OF q2] s1 by simp
  have "\<exists>ext. sent w' = sent w2 @ ext"
    using assms(1) q1 q2 unfolding configure_problem_def w1_def[symmetric]
    by (auto simp: Let_def split: prod.splits sum.splits
        dest!: request_world save_tests_sent wait_for_package_sent)
  with s2 show ?thesis by auto
qed

text \<open>
  Claim C9. The legend parameter of the statement request is the legend of the task, or
  the name of the task when the legend is empty; and that request is the third one of
  every run in which the problem was created and the run configuration accepted.
\<close>

theorem statement_legend_fallback:
  "map_of (statement_params pid task) (str ''legend'') =
     Some (PStr (if legend task = [] then name task else legend task)) \<and>
   (\<forall>env w problem info.
      reply env (calls w) = Inr problem \<and> created_id problem = Inr pid \<and>
      reply env (calls w + 1) = Inr info \<longrightarrow>
      sent (snd (create_polygon_problem isdecimal isdigit float_ok env code task w)) !
        (length (sent w) + 2) =
      (str ''problem.saveStatement'', statement_params pid task))"
proof -
  have a: "map_of (statement_params pid task) (str ''legend'') =
      Some (PStr (if legend task = [] then name task else legend task))"
    by (simp add: statement_params_def str_def)
  have b: "sent (snd (create_polygon_problem isdecimal isdigit float_ok env code task w)) !
        (length (sent w) + 2) = (str ''problem.saveStatement'', statement_params pid task)"
    if r0: "reply env (calls w) = Inr problem" and c: "created_id problem = Inr pid"
      and r1: "reply env (calls w + 1) = Inr info"
    for env w problem info
  proof -
    define w0 where "w0 = snd (request env w (str ''problem.create'') [(str ''name'', PStr code)])"
    have q0: "request env w (str ''problem.create'') [(str ''name'', PStr code)] = (Inr problem, w0)"
      using r0 by (simp add: request_def Let_def w0_def)
    from request_world[OF q0] have s0: "sent w0 = sent w @ [(str ''problem.create'', [(str ''name'', PStr code)])]"
      and c0: "calls w0 = calls w + 1" by simp_all
    obtain r w' where
      cfg: "configure_problem isdecimal isdigit float_ok env pid task w0 = (r, w')"
      by (cases "configure_problem isdecimal isdigit float_ok env pid task w0")
    from r1 c0 have "reply env (calls w0) = Inr info" by simp
    from configure_problem_sent[OF cfg this] obtain ext where
      "sent w' = sent w0 @ [(str ''problem.updateInfo'', update_info_params pid),
                      (str ''problem.saveStatement'', statement_params pid task)] @ ext"
      by blast
    with s0 have "sent w' ! (length (sent w) + 2) =
        (str ''problem.saveStatement'', statement_params pid task)"
      by (simp add: nth_append)
    moreover have "create_polygon_problem isdecimal isdigit float_ok env code task w = (r, w')"
      using q0 c cfg by (simp add: create_polygon_problem_def)
    ultimately show ?thesis by simp
  qed
  from a b show ?thesis by blast
qed

theorem statement_legend_fallback_witness:
  "sent (snd (create_polygon_problem ascii_digit ascii_digit ascii_float_ok
       (building_remote\<lparr>reply := (\<lambda>k. Inr created_object)\<rparr>) (str ''week3-01'')
       ((task_expecting (str ''3''))\<lparr>legend := []\<rparr>) start_world)) ! 2 =
   (str ''problem.saveStatement'',
    [(str ''problemId'', PInt 42), (str ''lang'', PStr (str ''russian'')),
     (str ''name'', PStr (str ''Sum'')), (str ''legend'', PStr (str ''Sum'')),
     (str ''input'', PStr no_input_text), (str ''output'', PStr no_output_text)])"
proof -
  let ?env = "building_remote\<lparr>reply := (\<lambda>k. Inr created_object)\<rparr>"
  let ?task = "(task_expecting (str ''3''))\<lparr>legend := []\<rparr>"
  have "reply ?env (calls start_world) = Inr created_object \<and>
      created_id created_object = Inr 42 \<and> reply ?env (calls start_world + 1) = Inr created_object"
    by (simp add: created_id_def created_object_def)
  with statement_legend_fallback[of 42 ?task ascii_digit ascii_digit ascii_float_ok "str ''week3-01''"]
  have "sent (snd (create_polygon_problem ascii_digit ascii_digit ascii_float_ok ?env
      (str ''week3-01'') ?task start_world)) ! (length (sent start_world) + 2) =
      (str ''problem.saveStatement'', statement_params 42 ?task)"
    by blast
  then show ?thesis
    by (simp add: start_world_def statement_params_def task_expecting_def numeral_2_eq_2)
qed

lemma latest_package_max:
  "latest_package best pkgs \<in> set (best # pkgs) \<and>
   (\<forall>p\<in>set (best # pkgs). creation_key p \<le> creation_key (latest_package best pkgs))"
proof (induction pkgs arbitrary: best)
  case Nil
  then show ?case by simp
next
  case (Cons pkg pkgs)
  let ?b = "if creation_key best < creation_key pkg then pkg else best"
  from Cons[of ?b] have "latest_package ?b pkgs \<in> set (?b # pkgs)"
    and m: "\<forall>p\<in>set (?b # pkgs). creation_key p \<le> creation_key (latest_package ?b pkgs)"
    by blast+
  moreover from m have "creation_key ?b \<le> creation_key (latest_package ?b pkgs)" by simp
  then have "creation_key best \<le> creation_key (latest_package ?b pkgs) \<and>
      creation_key pkg \<le> creation_key (latest_package ?b pkgs)"
    by (auto split: if_splits)
  ultimately show ?case by (auto split: if_splits)
qed

lemma poll_late:
  "deadline \<le> clock w \<Longrightarrow>
   poll_packages env pid deadline w = (Inl (Package_build_timeout pid), w)"
  by (subst poll_packages.simps) simp

lemma poll_pending:
  assumes "clock w < deadline"
    and "request env w (str ''problem.packages'') [(str ''problemId'', PInt pid)] = (r1, w1)"
    and "pending r1"
  shows "poll_packages env pid deadline w = poll_packages env pid deadline (sleep env w1 2)"
  using assms by (subst poll_packages.simps) (auto simp: pending_def Let_def)

lemma poll_decided:
  assumes "clock w < deadline"
    and "request env w (str ''problem.packages'') [(str ''problemId'', PInt pid)] = (r1, w1)"
    and "\<not> pending r1"
  shows "poll_packages env pid deadline w =
     (case r1 of
        Inl e \<Rightarrow> (Inl e, w1)
      | Inr (Object_list (pkg # pkgs)) \<Rightarrow>
          if state (latest_package pkg pkgs) = Some (str ''READY'') then (Inr (), w1)
          else (Inl (Package_build_failed pid), w1)
      | Inr other \<Rightarrow> (Inl Python_exception, w1))"
  using assms
  by (subst poll_packages.simps)
     (auto simp: pending_def Let_def split: sum.splits api_result.splits list.splits)

lemma poll_decided_world:
  assumes "clock w < deadline"
    and "request env w (str ''problem.packages'') [(str ''problemId'', PInt pid)] = (r1, w1)"
    and "\<not> pending r1"
  shows "snd (poll_packages env pid deadline w) = w1 \<and>
         fst (poll_packages env pid deadline w) \<noteq> Inl (Package_build_timeout p)"
proof -
  have "r1 \<noteq> Inl (Package_build_timeout p)"
    using assms(2) by (auto simp: request_def Let_def split: sum.splits)
  then show ?thesis
    unfolding poll_decided[OF assms]
    by (auto split: sum.splits api_result.splits list.splits)
qed

lemma poll_calls_bound:
  "calls (snd (poll_packages env pid deadline w)) \<le>
     calls w + nat ((deadline - clock w + 1) div 2)"
proof (induction env pid deadline w rule: poll_packages.induct)
  case (1 env pid deadline w)
  show ?case
  proof (cases "clock w < deadline")
    case False
    then show ?thesis by (simp add: poll_late)
  next
    case True
    obtain r1 w1 where
      q: "request env w (str ''problem.packages'') [(str ''problemId'', PInt pid)] = (r1, w1)"
      by (cases "request env w (str ''problem.packages'') [(str ''problemId'', PInt pid)]")
    let ?w2 = "sleep env w1 2"
    from request_world[OF q] have c1: "calls w1 = calls w + 1" and k1: "clock w \<le> clock w1"
      by simp_all
    have c2: "calls ?w2 = calls w + 1" using c1 by (simp add: sleep_world)
    have k2: "clock w + 2 \<le> clock ?w2" using k1 sleep_world[of env w1 2] by linarith
    have "(2::int) div 2 \<le> (deadline - clock w + 1) div 2"
      using True by (intro zdiv_mono1) simp_all
    then have one': "1 \<le> (deadline - clock w + 1) div 2" by simp
    then have one: "1 \<le> nat ((deadline - clock w + 1) div 2)" by simp
    have "(deadline - clock ?w2 + 1) div 2 \<le> (deadline - clock w + 1 - 2) div 2"
      using k2 by (intro zdiv_mono1) simp_all
    also have "\<dots> = (deadline - clock w + 1) div 2 - 1" by simp
    finally have less: "nat ((deadline - clock ?w2 + 1) div 2) + 1 \<le> nat ((deadline - clock w + 1) div 2)"
      using one' by simp
    show ?thesis
    proof (cases "pending r1")
      case False
      from poll_decided_world[OF True q False] c1 one show ?thesis by simp
    next
      case p: True
      then have "calls (snd (poll_packages env pid deadline ?w2)) \<le>
          calls ?w2 + nat ((deadline - clock ?w2 + 1) div 2)"
        using "1.IH" True q by (auto simp: pending_def Let_def)
      with c2 less poll_pending[OF True q p] show ?thesis by simp
    qed
  qed
qed

lemma poll_timeout_late:
  "poll_packages env pid deadline w = (Inl (Package_build_timeout p), w') \<Longrightarrow>
   p = pid \<and> deadline \<le> clock w'"
proof (induction env pid deadline w rule: poll_packages.induct)
  case (1 env pid deadline w)
  show ?case
  proof (cases "clock w < deadline")
    case False
    with "1.prems" show ?thesis by (simp add: poll_late)
  next
    case True
    obtain r1 w1 where
      q: "request env w (str ''problem.packages'') [(str ''problemId'', PInt pid)] = (r1, w1)"
      by (cases "request env w (str ''problem.packages'') [(str ''problemId'', PInt pid)]")
    show ?thesis
    proof (cases "pending r1")
      case False
      from poll_decided_world[OF True q False, of p] "1.prems" show ?thesis by simp
    next
      case p: True
      with "1.prems" poll_pending[OF True q p]
      have "poll_packages env pid deadline (sleep env w1 2) = (Inl (Package_build_timeout p), w')"
        by simp
      with "1.IH" True q p show ?thesis by (auto simp: pending_def Let_def)
    qed
  qed
qed

text \<open>
  Claim C5. Waiting for the package polls under the deadline \<open>now + timeout\<close>, 300
  seconds by default. At or past the deadline the wait fails with the timeout error
  naming the problem. Before it, a reply without packages makes the loop sleep and poll
  again; otherwise the package with the greatest creation time decides: \<open>READY\<close> ends
  the wait with success at once, \<open>FAILED\<close> ends it with the build error naming the
  problem, any other state makes the loop sleep and poll again. Two polls are at least
  two seconds apart, so the default wait makes at most 150 requests, and a timeout is
  only reported once the deadline has passed.
\<close>

theorem build_wait_polling:
  assumes "request env w (str ''problem.packages'') [(str ''problemId'', PInt pid)] = (r1, w1)"
  shows "wait_for_package env pid timeout w0 = poll_packages env pid (clock w0 + timeout) w0 \<and>
    default_timeout = 300 \<and>
    (deadline \<le> clock w \<longrightarrow>
       poll_packages env pid deadline w = (Inl (Package_build_timeout pid), w)) \<and>
    (clock w < deadline \<and> (r1 = Inr Null_result \<or> r1 = Inr (Object_list [])) \<longrightarrow>
       poll_packages env pid deadline w = poll_packages env pid deadline (sleep env w1 2)) \<and>
    (\<forall>pkg pkgs. clock w < deadline \<and> r1 = Inr (Object_list (pkg # pkgs)) \<longrightarrow>
       latest_package pkg pkgs \<in> set (pkg # pkgs) \<and>
       (\<forall>p\<in>set (pkg # pkgs). creation_key p \<le> creation_key (latest_package pkg pkgs)) \<and>
       poll_packages env pid deadline w =
         (if state (latest_package pkg pkgs) = Some (str ''READY'') then (Inr (), w1)
          else if state (latest_package pkg pkgs) = Some (str ''FAILED'')
            then (Inl (Package_build_failed pid), w1)
          else poll_packages env pid deadline (sleep env w1 2))) \<and>
    clock w + 2 \<le> clock (sleep env w1 2) \<and>
    calls (snd (poll_packages env pid deadline w)) \<le> calls w + nat ((deadline - clock w + 1) div 2) \<and>
    calls (snd (wait_for_package env pid default_timeout w0)) \<le> calls w0 + 150 \<and>
    (\<forall>p w'. poll_packages env pid deadline w = (Inl (Package_build_timeout p), w') \<longrightarrow>
       p = pid \<and> deadline \<le> clock w')"
proof -
  have a: "wait_for_package env pid timeout w0 = poll_packages env pid (clock w0 + timeout) w0"
    by (simp add: wait_for_package_def)
  have b: "deadline \<le> clock w \<longrightarrow>
      poll_packages env pid deadline w = (Inl (Package_build_timeout pid), w)"
    by (simp add: poll_late)
  have c: "clock w < deadline \<and> (r1 = Inr Null_result \<or> r1 = Inr (Object_list [])) \<longrightarrow>
      poll_packages env pid deadline w = poll_packages env pid deadline (sleep env w1 2)"
    using poll_pending[OF _ assms, of deadline] by (auto simp: pending_def)
  have d: "latest_package pkg pkgs \<in> set (pkg # pkgs) \<and>
       (\<forall>p\<in>set (pkg # pkgs). creation_key p \<le> creation_key (latest_package pkg pkgs)) \<and>
       poll_packages env pid deadline w =
         (if state (latest_package pkg pkgs) = Some (str ''READY'') then (Inr (), w1)
          else if state (latest_package pkg pkgs) = Some (str ''FAILED'')
            then (Inl (Package_build_failed pid), w1)
          else poll_packages env pid deadline (sleep env w1 2))"
    if t: "clock w < deadline" and r: "r1 = Inr (Object_list (pkg # pkgs))" for pkg pkgs
  proof -
    have "poll_packages env pid deadline w =
         (if state (latest_package pkg pkgs) = Some (str ''READY'') then (Inr (), w1)
          else if state (latest_package pkg pkgs) = Some (str ''FAILED'')
            then (Inl (Package_build_failed pid), w1)
          else poll_packages env pid deadline (sleep env w1 2))"
      using t r assms by (subst poll_packages.simps) (simp add: Let_def)
    with latest_package_max[of pkg pkgs] show ?thesis by blast
  qed
  have e: "clock w + 2 \<le> clock (sleep env w1 2)"
    using request_world[OF assms] sleep_world[of env w1 2] by linarith
  have f: "calls (snd (poll_packages env pid deadline w)) \<le>
      calls w + nat ((deadline - clock w + 1) div 2)"
    by (rule poll_calls_bound)
  have g: "calls (snd (wait_for_package env pid default_timeout w0)) \<le> calls w0 + 150"
    using poll_calls_bound[of env pid "clock w0 + 300" w0]
    by (simp add: wait_for_package_def default_timeout_def)
  have h: "\<forall>p w'. poll_packages env pid deadline w = (Inl (Package_build_timeout p), w') \<longrightarrow>
       p = pid \<and> deadline \<le> clock w'"
    using poll_timeout_late by blast
  from a b c d e f g h show ?thesis
    by (simp add: default_timeout_def)
qed

lemmas world_eval = request_def sleep_def start_world_def building_remote_def package_in_def
  creation_key_def Let_def str_def

theorem build_wait_polling_witness:
  "wait_for_package building_remote 42 default_timeout start_world =
     (Inr (),
      \<lparr>calls = 3, sleeps = 2, clock = 1700000007,
       sent = replicate 3 (str ''problem.packages'', [(str ''problemId'', PInt 42)])\<rparr>) \<and>
   wait_for_package (building_remote\<lparr>reply := (\<lambda>k. Inr (Object_list []))\<rparr>) 42 3 start_world =
     (Inl (Package_build_timeout 42),
      \<lparr>calls = 1, sleeps = 1, clock = 1700000003,
       sent = [(str ''problem.packages'', [(str ''problemId'', PInt 42)])]\<rparr>)"
proof -
  let ?q = "(str ''problem.packages'', [(str ''problemId'', PInt 42)])"
  let ?w1 = "\<lparr>calls = 1, sleeps = 0, clock = 1700000001, sent = [?q]\<rparr>"
  let ?idle = "building_remote\<lparr>reply := (\<lambda>k. Inr (Object_list []))\<rparr>"
  have r: "request building_remote start_world (str ''problem.packages'') [(str ''problemId'', PInt 42)] =
      (Inr (Object_list []), ?w1)"
    by (simp add: world_eval)
  have step: "poll_packages building_remote 42 (clock start_world + default_timeout) start_world =
      poll_packages building_remote 42 (clock start_world + default_timeout)
        (sleep building_remote ?w1 2)"
    using build_wait_polling[OF r, of default_timeout start_world "clock start_world + default_timeout"]
    by (simp add: start_world_def default_timeout_def)
  have 1: "wait_for_package building_remote 42 default_timeout start_world =
     (Inr (),
      \<lparr>calls = 3, sleeps = 2, clock = 1700000007,
       sent = replicate 3 (str ''problem.packages'', [(str ''problemId'', PInt 42)])\<rparr>)"
    unfolding wait_for_package_def step
    by (simp add: poll_packages.simps world_eval default_timeout_def numeral_3_eq_3)
  have r': "request ?idle start_world (str ''problem.packages'') [(str ''problemId'', PInt 42)] =
      (Inr (Object_list []), ?w1)"
    by (simp add: world_eval)
  have step': "poll_packages ?idle 42 (clock start_world + 3) start_world =
      poll_packages ?idle 42 (clock start_world + 3) (sleep ?idle ?w1 2)"
    using build_wait_polling[OF r', of 3 start_world "clock start_world + 3"]
    by (simp add: start_world_def)
  have 2: "wait_for_package ?idle 42 3 start_world =
     (Inl (Package_build_timeout 42),
      \<lparr>calls = 1, sleeps = 1, clock = 1700000003,
       sent = [(str ''problem.packages'', [(str ''problemId'', PInt 42)])]\<rparr>)"
    unfolding wait_for_package_def step'
    by (simp add: poll_packages.simps world_eval)
  from 1 2 show ?thesis by blast
qed

end
